theory Spec2Isabelle
  imports Main "HOL-Library.Word"
begin

unbundle bit_operations_syntax

section \<open>Configuration snapshots (package config)\<close>

text \<open>
  The typed configuration records of \<^verbatim>\<open>config\<close>. A Go \<^verbatim>\<open>uint32\<close> is a
  \<open>32 word\<close>, a \<^verbatim>\<open>uint16\<close> a \<open>16 word\<close>, a slice a list.
\<close>

record VirtualNetwork =
  RD :: string
  VNI :: "32 word"
  VxlanPort :: "16 word"
  VtepInterface :: string
  Etag :: "32 word"
  SniffInterfaces :: "string list"
  MemberInterfaces :: "string list"

text \<open>\<^verbatim>\<open>config.Dataplane\<close>; the record of the same name in package netlink is
  \<open>Dataplane\<close> below.\<close>

record config_Dataplane =
  Type :: string
  VirtualNetworkList :: "VirtualNetwork list"

text \<open>
  \<^verbatim>\<open>inSlice\<close> returns the index of the first element of the list with the RD of
  \<open>one\<close>, and \<open>-1\<close> when there is none. The loop index is carried along.
\<close>

fun inSlice_from :: "nat \<Rightarrow> VirtualNetwork \<Rightarrow> VirtualNetwork list \<Rightarrow> int" where
  "inSlice_from idx one [] = -1"
| "inSlice_from idx one (vn # list) =
     (if RD vn = RD one then int idx else inSlice_from (Suc idx) one list)"

definition inSlice :: "VirtualNetwork \<Rightarrow> VirtualNetwork list \<Rightarrow> int" where
  "inSlice one list = inSlice_from 0 one list"

text \<open>
  The two loops of \<^verbatim>\<open>UpdateConfig\<close> append, in order, the elements that pass the
  test \<^verbatim>\<open>inSlice(n, ...) < 0\<close>.
\<close>

fun collect_missing :: "VirtualNetwork list \<Rightarrow> VirtualNetwork list \<Rightarrow> VirtualNetwork list" where
  "collect_missing [] other = []"
| "collect_missing (n # ns) other =
     (if inSlice n other < 0 then n # collect_missing ns other else collect_missing ns other)"

text \<open>\<^verbatim>\<open>curC\<close> is a pointer: \<open>None\<close> is \<^verbatim>\<open>nil\<close>. The result is
  \<open>(added, deleted)\<close>.\<close>

definition UpdateConfig ::
  "config_Dataplane option \<Rightarrow> config_Dataplane \<Rightarrow> VirtualNetwork list \<times> VirtualNetwork list" where
  "UpdateConfig curC newC =
     (case curC of
        None \<Rightarrow> (VirtualNetworkList newC, [])
      | Some cur \<Rightarrow>
          (collect_missing (VirtualNetworkList newC) (VirtualNetworkList cur),
           collect_missing (VirtualNetworkList cur) (VirtualNetworkList newC)))"

text \<open>
  The \<^verbatim>\<open>configCh\<close> case of the loop of \<^verbatim>\<open>main\<close>, as far as the snapshot goes:
  the stored snapshot \<open>d\<close> is differenced against the new one and replaced by it.
\<close>

definition apply_snapshot ::
  "config_Dataplane option \<Rightarrow> config_Dataplane \<Rightarrow>
     config_Dataplane option \<times> VirtualNetwork list \<times> VirtualNetwork list" where
  "apply_snapshot d newC = (Some newC, UpdateConfig d newC)"

text \<open>Two snapshots with one RD, differing in the VNI.\<close>

definition vn_rd10 :: VirtualNetwork where
  "vn_rd10 = \<lparr>RD = ''65000:10'', VNI = 10, VxlanPort = 4789, VtepInterface = ''eth0'',
     Etag = 10, SniffInterfaces = [''eth1''], MemberInterfaces = [''eth1'']\<rparr>"

definition vn_rd20 :: VirtualNetwork where
  "vn_rd20 = \<lparr>RD = ''65000:20'', VNI = 20, VxlanPort = 4789, VtepInterface = ''eth0'',
     Etag = 20, SniffInterfaces = [''eth2''], MemberInterfaces = [''eth2'']\<rparr>"

definition snapshot_old :: config_Dataplane where
  "snapshot_old = \<lparr>Type = ''netlink'', VirtualNetworkList = [vn_rd10]\<rparr>"

definition snapshot_new :: config_Dataplane where
  "snapshot_new = \<lparr>Type = ''netlink'', VirtualNetworkList = [vn_rd10\<lparr>VNI := 11\<rparr>]\<rparr>"

definition snapshot_other :: config_Dataplane where
  "snapshot_other = \<lparr>Type = ''netlink'', VirtualNetworkList = [vn_rd20]\<rparr>"

section \<open>Reading the configuration file (config.ReadConfigfileServe)\<close>

text \<open>
  Of \<^verbatim>\<open>bgpconfig.Global\<close> the dataplane reads the AS number and the router ID
  (\<^verbatim>\<open>GetServer\<close>); its other fields are read by no code here and are not modelled.
\<close>

record GlobalConfig =
  As :: "32 word"
  RouterId :: string

record Global =
  Global_Config :: GlobalConfig

record BgpConfigSet =
  BgpConfigSet_Global :: Global

record Iptables =
  Enabled :: bool
  Chain :: string

record Config =
  Config_Dataplane :: config_Dataplane
  Config_Iptables :: Iptables
  Config_BGP :: BgpConfigSet

text \<open>The zero value \<^verbatim>\<open>&bgpconfig.Global{}\<close>.\<close>

definition emptyBGPGlobal :: Global where
  "emptyBGPGlobal = \<lparr>Global_Config = \<lparr>As = 0, RouterId = []\<rparr>\<rparr>"

text \<open>
  What viper finds when the file is read for one reload request: \<^verbatim>\<open>ReadInConfig\<close>
  fails, or it succeeds and \<^verbatim>\<open>UnmarshalExact\<close> fails, or both succeed and give a
  \<^verbatim>\<open>Config\<close>.
\<close>

datatype config_file = ReadInConfig_fails | UnmarshalExact_fails | Parsed Config

text \<open>What the reader sends: on \<^verbatim>\<open>bgpConfigCh\<close> or on \<^verbatim>\<open>configCh\<close>.\<close>

datatype config_msg = To_bgpConfigCh BgpConfigSet | To_configCh Config

text \<open>
  The reader either waits for the next request on \<^verbatim>\<open>reloadCh\<close>, or it has
  called \<^verbatim>\<open>log.Fatal\<close>, which logs and ends the process with \<^verbatim>\<open>os.Exit(1)\<close>.
\<close>

datatype reader_state = Waiting_for_reload | Process_exited

text \<open>
  One element of the list is one value received from \<^verbatim>\<open>reloadCh\<close>, with the state
  of the file at that moment: \<^verbatim>\<open>main\<close> sends the first one at startup, and one
  more for every SIGHUP. \<^verbatim>\<open>SetDefaultConfigValues\<close> belongs to a package that is
  not among the sources here and is a parameter: \<open>None\<close> is its error.
  The result is the sequence of messages sent, and the state of the reader after the last
  request.
\<close>

fun ReadConfigfileServe ::
  "(BgpConfigSet \<Rightarrow> BgpConfigSet option) \<Rightarrow> config_file list \<Rightarrow> config_msg list \<times> reader_state" where
  "ReadConfigfileServe SetDefaultConfigValues [] = ([], Waiting_for_reload)"
| "ReadConfigfileServe SetDefaultConfigValues (ReadInConfig_fails # reloads) = ([], Process_exited)"
| "ReadConfigfileServe SetDefaultConfigValues (UnmarshalExact_fails # reloads) = ([], Process_exited)"
| "ReadConfigfileServe SetDefaultConfigValues (Parsed c # reloads) =
     (if emptyBGPGlobal \<noteq> BgpConfigSet_Global (Config_BGP c) then
        (case SetDefaultConfigValues (Config_BGP c) of
           None \<Rightarrow> ([], Process_exited)
         | Some bgp \<Rightarrow>
             (case ReadConfigfileServe SetDefaultConfigValues reloads of
                (sent, st) \<Rightarrow>
                  (To_bgpConfigCh bgp # To_configCh (c\<lparr>Config_BGP := bgp\<rparr>) # sent, st)))
      else
        (case ReadConfigfileServe SetDefaultConfigValues reloads of
           (sent, st) \<Rightarrow> (To_configCh c # sent, st)))"

text \<open>A file that loads: it has one VirtualNetwork and no BGP section.\<close>

definition config_rd10 :: Config where
  "config_rd10 = \<lparr>Config_Dataplane = snapshot_old,
     Config_Iptables = \<lparr>Enabled = False, Chain = []\<rparr>,
     Config_BGP = \<lparr>BgpConfigSet_Global = emptyBGPGlobal\<rparr>\<rparr>"

section \<open>Addresses (Go package net)\<close>

type_synonym byte = "8 word"

text \<open>\<^verbatim>\<open>net.IP\<close> is a byte slice; the nil slice and the empty one are both \<open>[]\<close>
  (\<^verbatim>\<open>len\<close> is all the code asks of them).\<close>

type_synonym IP = "byte list"

definition v4InV6Prefix :: "byte list" where
  "v4InV6Prefix = [0, 0, 0, 0, 0, 0, 0, 0, 0, 0, 0xff, 0xff]"

definition IPv4 :: "byte \<Rightarrow> byte \<Rightarrow> byte \<Rightarrow> byte \<Rightarrow> IP" where
  "IPv4 a b c d = v4InV6Prefix @ [a, b, c, d]"

definition isZeros :: "byte list \<Rightarrow> bool" where
  "isZeros p = list_all (\<lambda>b. b = 0) p"

definition To4 :: "IP \<Rightarrow> IP" where
  "To4 ip =
     (if length ip = 4 then ip
      else if length ip = 16 \<and> isZeros (take 10 ip) \<and> ip ! 10 = 0xff \<and> ip ! 11 = 0xff
        then drop 12 ip
      else [])"

definition IP_Equal :: "IP \<Rightarrow> IP \<Rightarrow> bool" where
  "IP_Equal ip x =
     (if length ip = length x then ip = x
      else if length ip = 4 \<and> length x = 16
        then take 12 x = v4InV6Prefix \<and> ip = drop 12 x
      else if length ip = 16 \<and> length x = 4
        then take 12 ip = v4InV6Prefix \<and> drop 12 ip = x
      else False)"

definition hexDigit :: "nat \<Rightarrow> char" where
  "hexDigit n = ''0123456789abcdef'' ! n"

definition ubtoa :: "byte \<Rightarrow> string" where
  "ubtoa v =
     (let n = unat v in
      if n < 10 then [hexDigit n]
      else if n < 100 then [hexDigit (n div 10), hexDigit (n mod 10)]
      else [hexDigit (n div 100), hexDigit (n div 10 mod 10), hexDigit (n mod 10)])"

definition hexString :: "byte list \<Rightarrow> string" where
  "hexString b = concat (map (\<lambda>tn. [hexDigit (unat tn div 16), hexDigit (unat tn mod 16)]) b)"

text \<open>\<^verbatim>\<open>appendHex\<close>: the hexadecimal digits of a 32-bit value without leading zeros.\<close>

definition appendHex :: "nat \<Rightarrow> string" where
  "appendHex i =
     (if i = 0 then ''0''
      else concat (map (\<lambda>j. if i div 16 ^ j > 0 then [hexDigit (i div 16 ^ j mod 16)] else [])
                    [7, 6, 5, 4, 3, 2, 1, 0]))"

text \<open>
  \<^verbatim>\<open>IP.String\<close> for a 16-byte address that is not an IPv4 one: the longest run of
  zero groups (the first of the longest ones, and only if it has two groups at least) is
  written as \<^verbatim>\<open>::\<close>. \<open>groups_from p i\<close> are the 16-bit groups from byte \<open>i\<close> on,
  \<open>zero_run gs\<close> the number of zero groups \<open>gs\<close> begins with, and \<open>longest_run\<close> is
  the search loop, at the group index \<open>i\<close> with the best run \<open>(start, length)\<close> so far.
\<close>

definition groups :: "IP \<Rightarrow> nat list" where
  "groups p = map (\<lambda>i. unat (p ! (2 * i)) * 256 + unat (p ! (2 * i + 1))) [0 ..< 8]"

definition zero_run :: "nat list \<Rightarrow> nat" where
  "zero_run gs = length (takeWhile (\<lambda>g. g = 0) gs)"

fun longest_run :: "nat list \<Rightarrow> nat \<Rightarrow> nat \<times> nat \<Rightarrow> nat \<times> nat" where
  "longest_run [] i best = best"
| "longest_run (g # gs) i best =
     longest_run gs (Suc i) (if zero_run (g # gs) > snd best then (i, zero_run (g # gs)) else best)"

definition join_groups :: "nat list \<Rightarrow> string" where
  "join_groups gs = concat (map (\<lambda>(k, g). (if k > 0 then '':'' else []) @ appendHex g)
                              (zip [0 ..< length gs] gs))"

definition IPv6_text :: "IP \<Rightarrow> string" where
  "IPv6_text p =
     (case longest_run (groups p) 0 (0, 0) of
        (e0, n) \<Rightarrow>
          if n \<le> 1 then join_groups (groups p)
          else join_groups (take e0 (groups p)) @ ''::'' @ join_groups (drop (e0 + n) (groups p)))"

definition IP_String :: "IP \<Rightarrow> string" where
  "IP_String ip =
     (if length ip = 0 then ''<nil>''
      else if length (To4 ip) = 4 then
        ubtoa (To4 ip ! 0) @ ''.'' @ ubtoa (To4 ip ! 1) @ ''.'' @ ubtoa (To4 ip ! 2) @ ''.''
          @ ubtoa (To4 ip ! 3)
      else if length ip \<noteq> 16 then ''?'' @ hexString ip
      else IPv6_text ip)"

text \<open>\<^verbatim>\<open>net.HardwareAddr.String\<close>: the bytes in hexadecimal, with colons between.\<close>

fun HardwareAddr_String :: "byte list \<Rightarrow> string" where
  "HardwareAddr_String [] = []"
| "HardwareAddr_String [b] = hexString [b]"
| "HardwareAddr_String (b # bs) = hexString [b] @ '':'' @ HardwareAddr_String bs"

text \<open>The characters of the text of an address that is not nil.\<close>

definition text_chars :: "char set" where
  "text_chars = set ''0123456789abcdef.:?''"

section \<open>BGP paths\<close>

text \<open>
  Of a \<^verbatim>\<open>table.Path\<close> the dataplane uses the NLRI (its text and its address family),
  the source peer, the withdraw flag and the path attributes. Of the attributes it tells
  apart the two that carry a nexthop.
\<close>

record PeerInfo =
  PeerInfo_AS :: "32 word"
  PeerInfo_ID :: IP
  PeerInfo_Address :: IP

datatype PathAttributeInterface =
    PathAttributeNextHop IP
  | PathAttributeMpReachNLRI IP
  | PathAttributeOrigin byte
  | PathAttributeOther

record Path =
  Nlri :: string
  Nlri_AFI :: "16 word"
  Nlri_SAFI :: "8 word"
  Source :: "PeerInfo option"
  IsWithdraw :: bool
  PathAttrs :: "PathAttributeInterface list"

definition AFI_IP :: "16 word" where
  "AFI_IP = 1"

definition SAFI_UNICAST :: "8 word" where
  "SAFI_UNICAST = 1"

text \<open>\<^verbatim>\<open>RouteFamily(int(afi)<<16 | int(safi))\<close>.\<close>

definition AfiSafiToRouteFamily :: "16 word \<Rightarrow> 8 word \<Rightarrow> int" where
  "AfiSafiToRouteFamily afi safi = push_bit 16 (uint afi) OR uint safi"

definition GetRouteFamily :: "Path \<Rightarrow> int" where
  "GetRouteFamily path = AfiSafiToRouteFamily (Nlri_AFI path) (Nlri_SAFI path)"

text \<open>
  The fields of \<^verbatim>\<open>api.Path\<close> that the dataplane reads back. The attributes are kept
  as they are: \<^verbatim>\<open>apiutil.MarshalPathAttributes\<close> and
  \<^verbatim>\<open>apiutil.GetNativePathAttributes\<close>, which encode them and decode them again,
  belong to a package that is not among the sources here.
\<close>

record api_Path =
  api_Nlri :: string
  Pattrs :: "PathAttributeInterface list"
  api_IsWithdraw :: bool
  Family_Afi :: "16 word"
  Family_Safi :: "8 word"
  SourceAsn :: "32 word"
  SourceId :: string
  NeighborIp :: string

definition toPathAPI ::
  "string \<Rightarrow> PathAttributeInterface list \<Rightarrow> Path \<Rightarrow> api_Path" where
  "toPathAPI anyNlri anyPattrs path =
     (let p = \<lparr>api_Nlri = anyNlri, Pattrs = anyPattrs, api_IsWithdraw = IsWithdraw path,
                Family_Afi = Nlri_AFI path, Family_Safi = Nlri_SAFI path,
                SourceAsn = 0, SourceId = [], NeighborIp = []\<rparr>
      in case Source path of
           None \<Rightarrow> p
         | Some s \<Rightarrow> p\<lparr>SourceAsn := PeerInfo_AS s, SourceId := IP_String (PeerInfo_ID s),
                       NeighborIp := IP_String (PeerInfo_Address s)\<rparr>)"

definition toPathApi :: "Path \<Rightarrow> api_Path" where
  "toPathApi path = toPathAPI (Nlri path) (PathAttrs path) path"

definition GetNativePathAttributes :: "api_Path \<Rightarrow> PathAttributeInterface list" where
  "GetNativePathAttributes path = Pattrs path"

fun getNextHopFromPathAttributes :: "PathAttributeInterface list \<Rightarrow> IP" where
  "getNextHopFromPathAttributes [] = []"
| "getNextHopFromPathAttributes (PathAttributeNextHop v # attrs) = v"
| "getNextHopFromPathAttributes (PathAttributeMpReachNLRI nexthop # attrs) = nexthop"
| "getNextHopFromPathAttributes (a # attrs) = getNextHopFromPathAttributes attrs"

section \<open>The best-path watcher (netlink.monitorBest)\<close>

text \<open>
  The events of the watcher, with the fields \<^verbatim>\<open>monitorBest\<close> reads. A batch is a
  slice of pointers to paths: \<open>None\<close> is the nil pointer.
\<close>

datatype WatchEvent =
    WatchEventBestPath (PathList: "Path option list") (MultiPathList: "Path option list list")
  | WatchEventUpdate "Path option list"
  | WatchEventOther

text \<open>The type switch: the batch \<^verbatim>\<open>paths\<close> of an event; it stays nil for an event
  of another type.\<close>

fun event_paths :: "WatchEvent \<Rightarrow> Path option list" where
  "event_paths (WatchEventBestPath pathList multiPathList) =
     (if length multiPathList > 0 then concat multiPathList else pathList)"
| "event_paths (WatchEventUpdate pathList) = pathList"
| "event_paths WatchEventOther = []"

text \<open>
  The loop over the batch: it sets \<^verbatim>\<open>exitCurrentLoop\<close> and breaks at the first path
  that is nil or of another family than \<open>family\<close>. The result is the flag after the loop.
\<close>

fun check_family :: "int \<Rightarrow> bool \<Rightarrow> Path option list \<Rightarrow> bool" where
  "check_family family exitCurrentLoop [] = exitCurrentLoop"
| "check_family family exitCurrentLoop (None # paths) = True"
| "check_family family exitCurrentLoop (Some path # paths) =
     (if family \<noteq> GetRouteFamily path then True
      else check_family family exitCurrentLoop paths)"

text \<open>
  One turn of the endless loop, for one event: the state is the flag
  \<^verbatim>\<open>exitCurrentLoop\<close> and the batches sent on \<^verbatim>\<open>modRibCh\<close> so far, oldest
  first.
\<close>

definition monitorBest_event ::
  "bool \<times> Path option list list \<Rightarrow> WatchEvent \<Rightarrow> bool \<times> Path option list list" where
  "monitorBest_event st ev =
     (let family = AfiSafiToRouteFamily AFI_IP SAFI_UNICAST;
          paths = event_paths ev;
          exitCurrentLoop = check_family family (fst st) paths
      in if exitCurrentLoop = False then (exitCurrentLoop, snd st @ [paths])
         else (False, snd st))"

text \<open>The watcher on a sequence of events, from its initial state.\<close>

definition monitorBest :: "WatchEvent list \<Rightarrow> bool \<times> Path option list list" where
  "monitorBest evs = foldl monitorBest_event (False, []) evs"

text \<open>What the claims call an IPv4-unicast path.\<close>

definition ipv4_unicast :: "Path option \<Rightarrow> bool" where
  "ipv4_unicast path =
     (case path of None \<Rightarrow> False
      | Some p \<Rightarrow> Nlri_AFI p = AFI_IP \<and> Nlri_SAFI p = SAFI_UNICAST)"

text \<open>Example paths: an IPv4-unicast path learned from a peer, and an EVPN path
  (AFI 25, SAFI 70).\<close>

definition peer_10_0_0_2 :: PeerInfo where
  "peer_10_0_0_2 = \<lparr>PeerInfo_AS = 65001, PeerInfo_ID = [10, 0, 0, 2],
     PeerInfo_Address = [10, 0, 0, 2]\<rparr>"

definition path_v4 :: Path where
  "path_v4 = \<lparr>Nlri = ''10.0.0.0/24'', Nlri_AFI = 1, Nlri_SAFI = 1,
     Source = Some peer_10_0_0_2, IsWithdraw = False,
     PathAttrs = [PathAttributeOrigin 0, PathAttributeNextHop [192, 168, 0, 2]]\<rparr>"

definition path_evpn :: Path where
  "path_evpn = \<lparr>Nlri = ''[type:macadv]'', Nlri_AFI = 25, Nlri_SAFI = 70,
     Source = Some peer_10_0_0_2, IsWithdraw = False,
     PathAttrs = [PathAttributeOrigin 0, PathAttributeMpReachNLRI [192, 168, 0, 2]]\<rparr>"

section \<open>The kernel, as the netlink library shows it\<close>

text \<open>
  The library \<^verbatim>\<open>vishvananda/netlink\<close> and the kernel behind it are outside the
  repository. The model keeps what the dataplane can observe of them: the links, the
  addresses and the neighbour table it reads, and the sequence of modifying requests it
  issues. Of each structure the fields that the dataplane sets or reads are kept.
\<close>

definition FAMILY_ALL :: int where
  "FAMILY_ALL = 0"

definition FAMILY_V4 :: int where
  "FAMILY_V4 = 2"

definition FAMILY_V6 :: int where
  "FAMILY_V6 = 10"

definition NUD_PERMANENT :: int where
  "NUD_PERMANENT = 128"

definition FLAG_ONLINK :: int where
  "FLAG_ONLINK = 4"

record Neigh =
  Neigh_LinkIndex :: int
  Neigh_Family :: int
  Neigh_State :: int
  Neigh_IP :: IP
  Neigh_HardwareAddr :: "byte list"

record NexthopInfo =
  NexthopInfo_LinkIndex :: int
  NexthopInfo_Gw :: IP
  NexthopInfo_Flags :: int

record IPNet =
  IPNet_IP :: IP
  IPNet_Mask :: "byte list"

record Route =
  Route_LinkIndex :: int
  Route_Dst :: "IPNet option"
  Route_Src :: IP
  Route_Gw :: IP
  Route_MultiPath :: "NexthopInfo list"
  Route_Flags :: int

record Addr =
  Addr_IPNet :: IPNet
  Addr_Label :: string

text \<open>\<^verbatim>\<open>IPMask.Size\<close>: the number of leading one bits of a mask that is ones
  followed by zeros, and 0 for any other mask.\<close>

definition mask_bits :: "byte list \<Rightarrow> bool list" where
  "mask_bits m = concat (map (\<lambda>b. map (bit b) [7, 6, 5, 4, 3, 2, 1, 0]) m)"

definition Mask_Size :: "byte list \<Rightarrow> int" where
  "Mask_Size m =
     (let bits = mask_bits m; n = length (takeWhile (\<lambda>x. x) bits)
      in if list_all Not (drop n bits) then int n else 0)"

text \<open>\<^verbatim>\<open>Addr.Equal\<close>: the same IP and the same prefix length; the label is not
  compared.\<close>

definition Addr_Equal :: "Addr \<Rightarrow> Addr \<Rightarrow> bool" where
  "Addr_Equal a x =
     (let sizea = Mask_Size (IPNet_Mask (Addr_IPNet a));
          sizeb = Mask_Size (IPNet_Mask (Addr_IPNet x))
      in IP_Equal (IPNet_IP (Addr_IPNet a)) (IPNet_IP (Addr_IPNet x)) \<and> sizea = sizeb)"

text \<open>\<^verbatim>\<open>nl.GetIPFamily\<close>.\<close>

definition GetIPFamily :: "IP \<Rightarrow> int" where
  "GetIPFamily ip =
     (if length ip \<le> 4 then FAMILY_V4
      else if To4 ip \<noteq> [] then FAMILY_V4
      else FAMILY_V6)"

text \<open>The modifying requests, and the calls that can fail.\<close>

datatype netlink_request =
    NeighAdd_request Neigh
  | RouteReplace_request Route
  | RouteDel_request Route
  | AddrAdd_request int Addr

datatype netlink_call =
    Call_NeighList | Call_NeighAdd | Call_RouteReplace | Call_RouteDel
  | Call_LinkByName | Call_AddrList | Call_AddrAdd

text \<open>
  \<open>links\<close> gives the index of each link name, \<open>addrs\<close> the addresses with the index
  of their link, \<open>neighs\<close> the neighbour table of both families. \<open>requests\<close> is the log of
  the modifying requests issued, oldest first, whether they succeeded or not.
  \<open>failing\<close> lists the calls that the kernel answers with an error.
\<close>

record kernel =
  links :: "(string \<times> int) list"
  addrs :: "(int \<times> Addr) list"
  neighs :: "Neigh list"
  requests :: "netlink_request list"
  failing :: "netlink_call list"

text \<open>\<open>None\<close> is the error return of a call that reads.\<close>

definition NeighList :: "kernel \<Rightarrow> int \<Rightarrow> int \<Rightarrow> Neigh list option" where
  "NeighList k linkIndex family =
     (if Call_NeighList \<in> set (failing k) then None
      else Some (filter (\<lambda>n. (linkIndex = 0 \<or> Neigh_LinkIndex n = linkIndex)
                            \<and> (family = FAMILY_ALL \<or> Neigh_Family n = family))
                   (neighs k)))"

definition LinkByName :: "kernel \<Rightarrow> string \<Rightarrow> int option" where
  "LinkByName k name =
     (if Call_LinkByName \<in> set (failing k) then None else map_of (links k) name)"

definition AddrList :: "kernel \<Rightarrow> int \<Rightarrow> int \<Rightarrow> Addr list option" where
  "AddrList k link family =
     (if Call_AddrList \<in> set (failing k) then None
      else Some (map snd (filter (\<lambda>la. fst la = link
                                   \<and> (family = FAMILY_ALL
                                      \<or> GetIPFamily (IPNet_IP (Addr_IPNet (snd la))) = family))
                            (addrs k))))"

text \<open>
  A modifying call returns whether it failed (\<^verbatim>\<open>err != nil\<close>) and the kernel after
  it. \<^verbatim>\<open>NeighAdd\<close> creates an entry and fails when the link has one for the IP
  already; the kernel files the entry under the family of its IP. \<^verbatim>\<open>AddrAdd\<close> fails
  when the link has the address already. The route table is read by no code of the
  dataplane: of \<^verbatim>\<open>RouteReplace\<close> and \<^verbatim>\<open>RouteDel\<close> the request is kept.
\<close>

definition NeighAdd :: "kernel \<Rightarrow> Neigh \<Rightarrow> bool \<times> kernel" where
  "NeighAdd k neigh =
     (let k1 = k\<lparr>requests := requests k @ [NeighAdd_request neigh]\<rparr>
      in if Call_NeighAdd \<in> set (failing k)
            \<or> list_ex (\<lambda>n. Neigh_LinkIndex n = Neigh_LinkIndex neigh
                            \<and> IP_Equal (Neigh_IP n) (Neigh_IP neigh)) (neighs k)
         then (True, k1)
         else (False, k1\<lparr>neighs := neighs k
                 @ [neigh\<lparr>Neigh_Family := GetIPFamily (Neigh_IP neigh)\<rparr>]\<rparr>))"

definition RouteReplace :: "kernel \<Rightarrow> Route \<Rightarrow> bool \<times> kernel" where
  "RouteReplace k route =
     (Call_RouteReplace \<in> set (failing k),
      k\<lparr>requests := requests k @ [RouteReplace_request route]\<rparr>)"

definition RouteDel :: "kernel \<Rightarrow> Route \<Rightarrow> bool \<times> kernel" where
  "RouteDel k route =
     (Call_RouteDel \<in> set (failing k),
      k\<lparr>requests := requests k @ [RouteDel_request route]\<rparr>)"

definition AddrAdd :: "kernel \<Rightarrow> int \<Rightarrow> Addr \<Rightarrow> bool \<times> kernel" where
  "AddrAdd k link addr =
     (let k1 = k\<lparr>requests := requests k @ [AddrAdd_request link addr]\<rparr>
      in if Call_AddrAdd \<in> set (failing k)
            \<or> list_ex (\<lambda>la. fst la = link \<and> Addr_Equal (snd la) addr) (addrs k)
         then (True, k1)
         else (False, k1\<lparr>addrs := addrs k @ [(link, addr)]\<rparr>))"

text \<open>
  The parsers of text (\<^verbatim>\<open>net.ParseIP\<close>, \<^verbatim>\<open>netlink.ParseIPNet\<close>,
  \<^verbatim>\<open>netlink.ParseAddr\<close>) are parameters of the model. \<^verbatim>\<open>ParseIP\<close> gives the nil
  address for a text it cannot parse; \<open>None\<close> is the nil net of \<^verbatim>\<open>ParseIPNet\<close> and the
  error of \<^verbatim>\<open>ParseAddr\<close>.
\<close>

record parsers =
  ParseIP :: "string \<Rightarrow> IP"
  ParseIPNet :: "string \<Rightarrow> IPNet option"
  ParseAddr :: "string \<Rightarrow> Addr option"

section \<open>Nexthop resolution (netlink.getNexthop)\<close>

text \<open>
  The result is \<open>((link, gateway, flags), kernel)\<close>. \<open>None\<close> is the nil path. The two
  loops over the neighbour lists stop at the first entry that matches, which is
  \<open>find\<close>. The receiver \<^verbatim>\<open>d\<close> is not used by the method.
\<close>

definition getNexthop :: "kernel \<Rightarrow> api_Path option \<Rightarrow> (int \<times> IP \<times> int) \<times> kernel" where
  "getNexthop k path =
     (let flags = 0 in
      case path of
        None \<Rightarrow> ((0, [], flags), k)
      | Some p \<Rightarrow>
          if NeighborIp p = ''<nil>'' then ((0, [], flags), k)
          else
            let attrs = GetNativePathAttributes p;
                nh = getNextHopFromPathAttributes attrs
            in if To4 nh \<noteq> [] then ((0, To4 nh, flags), k)
               else
                 case NeighList k 0 FAMILY_V6 of
                   None \<Rightarrow> ((0, [], flags), k)
                 | Some list \<Rightarrow>
                     (case find (\<lambda>n. IP_Equal (Neigh_IP n) nh) list of
                        None \<Rightarrow> ((0, [], flags), k)
                      | Some neigh \<Rightarrow>
                          (case NeighList k (Neigh_LinkIndex neigh) FAMILY_V4 of
                             None \<Rightarrow> ((0, [], flags), k)
                           | Some list4 \<Rightarrow>
                               let flags = FLAG_ONLINK in
                               (case find (\<lambda>n. HardwareAddr_String (Neigh_HardwareAddr n)
                                                = HardwareAddr_String (Neigh_HardwareAddr neigh))
                                       list4 of
                                  Some n \<Rightarrow> ((Neigh_LinkIndex n, To4 (Neigh_IP n), flags), k)
                                | None \<Rightarrow>
                                    let nh = IPv4 169 254 0 1;
                                        added = NeighAdd k
                                          \<lparr>Neigh_LinkIndex = Neigh_LinkIndex neigh,
                                           Neigh_Family = 0,
                                           Neigh_State = NUD_PERMANENT,
                                           Neigh_IP = nh,
                                           Neigh_HardwareAddr = Neigh_HardwareAddr neigh\<rparr>
                                    in ((Neigh_LinkIndex neigh, nh, flags), snd added)))))"

section \<open>The dataplane and its route programming (netlink.modRib)\<close>

text \<open>
  \<^verbatim>\<open>VirtualNetwork\<close> of package netlink, the worker of one configured
  VirtualNetwork, is declared in a file that is not among the sources here.

  Modelled from the spec: \<^verbatim>\<open>NewVirtualNetwork\<close> makes the worker of one configured
  VirtualNetwork from its configuration, the router ID and the gRPC host (one worker
  instance per configured tenant overlay, identified by the RD of its configuration).
\<close>

record VirtualNetwork_worker =
  worker_config :: VirtualNetwork
  worker_routerId :: string
  worker_grpcHost :: string

definition NewVirtualNetwork :: "VirtualNetwork \<Rightarrow> string \<Rightarrow> string \<Rightarrow> VirtualNetwork_worker" where
  "NewVirtualNetwork v routerId grpcHost =
     \<lparr>worker_config = v, worker_routerId = routerId, worker_grpcHost = grpcHost\<rparr>"

text \<open>A run-time panic of the Go program.\<close>

datatype panic = Nil_pointer_dereference

text \<open>
  The method \<^verbatim>\<open>Stop\<close> of a worker is not among the sources here either, and the
  specification does not give its body. It is a parameter of the model: called on a
  pointer to a worker, where \<open>None\<close> is the nil pointer, it returns, which is \<open>None\<close>,
  or it panics, which is \<open>Some\<close> of the panic.
\<close>

type_synonym Stop_method = "VirtualNetwork_worker option \<Rightarrow> panic option"

text \<open>
  The fields of \<^verbatim>\<open>Dataplane\<close> that are data; \<open>client\<close> tells whether the gRPC client
  is set. The channels are the events of \<open>Serve_event\<close> below.
\<close>

record Dataplane =
  config :: Config
  vnMap :: "string \<rightharpoonup> VirtualNetwork_worker"
  grpcHost :: string
  client :: bool
  routerId :: string
  localAS :: "32 word"

definition GetServer :: "Dataplane \<Rightarrow> Global" where
  "GetServer d =
     (let g = Global_Config (BgpConfigSet_Global (Config_BGP (config d)))
      in \<lparr>Global_Config = \<lparr>As = As g, RouterId = RouterId g\<rparr>\<rparr>)"

text \<open>
  The loop of \<^verbatim>\<open>modRib\<close> over the paths of a batch of more than one path: the paths
  whose \<^verbatim>\<open>NeighborIp\<close> is \<^verbatim>\<open><nil>\<close> are passed over, every other one gets a
  nexthop entry from \<^verbatim>\<open>getNexthop\<close>.
\<close>

fun multipath_nexthops :: "kernel \<Rightarrow> Path list \<Rightarrow> NexthopInfo list \<times> kernel" where
  "multipath_nexthops k [] = ([], k)"
| "multipath_nexthops k (path # paths) =
     (if NeighborIp (toPathApi path) = ''<nil>'' then multipath_nexthops k paths
      else
        case getNexthop k (Some (toPathApi path)) of
          ((link, gw, flags), k1) \<Rightarrow>
            (case multipath_nexthops k1 paths of
               (mp, k2) \<Rightarrow>
                 (\<lparr>NexthopInfo_LinkIndex = link, NexthopInfo_Gw = gw,
                   NexthopInfo_Flags = flags\<rparr> # mp, k2)))"

text \<open>The end of \<^verbatim>\<open>modRib\<close>: the route is deleted when the first path of the batch
  is a withdrawal, and replaced otherwise.\<close>

definition del_or_replace :: "kernel \<Rightarrow> Path \<Rightarrow> Route \<Rightarrow> bool \<times> kernel" where
  "del_or_replace k p route = (if IsWithdraw p then RouteDel k route else RouteReplace k route)"

text \<open>
  \<^verbatim>\<open>modRib\<close> returns whether it failed, and the kernel. The batches come from
  \<^verbatim>\<open>monitorBest\<close>, which sends no batch with a nil pointer, so the paths are values.
\<close>

definition modRib :: "parsers \<Rightarrow> Dataplane \<Rightarrow> kernel \<Rightarrow> Path list \<Rightarrow> bool \<times> kernel" where
  "modRib L d k paths =
     (case paths of
        [] \<Rightarrow> (False, k)
      | p # others \<Rightarrow>
          let dst = ParseIPNet L (Nlri p);
              route = \<lparr>Route_LinkIndex = 0, Route_Dst = dst, Route_Src = ParseIP L (routerId d),
                       Route_Gw = [], Route_MultiPath = [], Route_Flags = 0\<rparr>
          in if length paths = 1 then
               (if NeighborIp (toPathApi p) = ''<nil>'' then (False, k)
                else
                  case getNexthop k (Some (toPathApi p)) of
                    ((link, gw, flags), k1) \<Rightarrow>
                      del_or_replace k1 p
                        (route\<lparr>Route_Gw := gw, Route_LinkIndex := link, Route_Flags := flags\<rparr>))
             else
               (case multipath_nexthops k paths of
                  (mp, k1) \<Rightarrow>
                    if length mp = 0 then (False, k1)
                    else del_or_replace k1 p (route\<lparr>Route_MultiPath := mp\<rparr>)))"

section \<open>The forwarding database of a virtual network\<close>

text \<open>
  Modelled from the spec: the forwarding database (FDB) is written by the worker of a
  VirtualNetwork, whose code is not among the sources here. The specification gives
  \<^verbatim>\<open>evpn_macip_to_fdb(path, vnw_ctx)\<close>, the FDB entry of a MAC/IP advertisement
  path, or that the path is ignored: the MAC is that of the NLRI, the remote VTEP is the
  nexthop of the path, the VNI is that of the VXLAN extended community of the path; the
  path is ignored if it is self-originated, if the RD or the etag of the NLRI do not
  match those of the VirtualNetwork, or if no extended community carries a VXLAN VNI.
  On ingress the worker installs the entry on its VXLAN interface, removes it when the
  path is a withdrawal, and ignores self-advertised routes. The path is the
  \<^verbatim>\<open>api.Path\<close> of the code, which is self-originated when its NeighborIp is
  \<^verbatim>\<open><nil>\<close>; \<open>None\<close> is a path without a VXLAN VNI, and a path that is ignored.
\<close>

record MacIpAdvertisement =
  Adv_RD :: string
  Adv_Etag :: "32 word"
  Adv_MAC :: "byte list"

record FdbEntry =
  Fdb_MAC :: "byte list"
  Fdb_Link :: string
  Fdb_Dst :: IP
  Fdb_VNI :: "32 word"

record vnw_ctx =
  ctx_config :: VirtualNetwork
  ctx_vxlan_iface :: string

definition evpn_macip_to_fdb ::
  "api_Path \<Rightarrow> MacIpAdvertisement \<Rightarrow> 32 word option \<Rightarrow> vnw_ctx \<Rightarrow> FdbEntry option" where
  "evpn_macip_to_fdb path nlri vxlan_vni ctx =
     (if NeighborIp path = ''<nil>'' then None
      else if Adv_RD nlri \<noteq> RD (ctx_config ctx) \<or> Adv_Etag nlri \<noteq> Etag (ctx_config ctx)
        then None
      else case vxlan_vni of
             None \<Rightarrow> None
           | Some vni \<Rightarrow>
               Some \<lparr>Fdb_MAC = Adv_MAC nlri, Fdb_Link = ctx_vxlan_iface ctx,
                     Fdb_Dst = getNextHopFromPathAttributes (GetNativePathAttributes path),
                     Fdb_VNI = vni\<rparr>)"

definition vnw_ingress ::
  "vnw_ctx \<Rightarrow> FdbEntry list \<Rightarrow> api_Path \<Rightarrow> MacIpAdvertisement \<Rightarrow> 32 word option
     \<Rightarrow> FdbEntry list" where
  "vnw_ingress ctx fdb path nlri vxlan_vni =
     (case evpn_macip_to_fdb path nlri vxlan_vni ctx of
        None \<Rightarrow> fdb
      | Some e \<Rightarrow>
          if api_IsWithdraw path
          then filter (\<lambda>x. \<not> (Fdb_Link x = Fdb_Link e \<and> Fdb_MAC x = Fdb_MAC e)) fdb
          else fdb @ [e])"

section \<open>The dataplane's main routine (netlink.Serve)\<close>

text \<open>
  The first loop of \<^verbatim>\<open>Serve\<close>. Each element of the list is the outcome of one call
  of \<^verbatim>\<open>NewClient\<close>: whether the dial succeeded. \<open>slept\<close> collects the durations, in
  seconds, of the calls of \<^verbatim>\<open>time.Sleep\<close>. The result is whether the loop was left
  with \<^verbatim>\<open>break\<close>, the dataplane and the sleeps; when the loop was not left, it is
  still looping after the last of the outcomes. (After \<^verbatim>\<open>GetServer\<close> the loop tests
  \<^verbatim>\<open>err\<close> once more; it is the error of the dial, which is nil there.)
\<close>

fun Serve_connect :: "Dataplane \<Rightarrow> bool list \<Rightarrow> nat list \<Rightarrow> bool \<times> Dataplane \<times> nat list" where
  "Serve_connect d [] slept = (False, d, slept)"
| "Serve_connect d (dialed # dials) slept =
     (if \<not> dialed then Serve_connect d dials (slept @ [10])
      else
        let d1 = d\<lparr>client := True\<rparr>;
            s = GetServer d1;
            d2 = d1\<lparr>routerId := RouterId (Global_Config s), localAS := As (Global_Config s)\<rparr>
        in if routerId d2 \<noteq> [] \<and> localAS d2 \<noteq> 0 then (True, d2, slept)
           else Serve_connect d2 dials (slept @ [10]))"

text \<open>The errors that \<^verbatim>\<open>Serve\<close> returns.\<close>

datatype Serve_error =
    Failed_to_get_lo
  | Failed_to_get_addr_list
  | Failed_to_parse_addr string
  | Failed_to_add_addr Addr

text \<open>The loop that looks for the address in the list: it does not break.\<close>

fun addr_exists :: "Addr \<Rightarrow> bool \<Rightarrow> Addr list \<Rightarrow> bool" where
  "addr_exists addr exist [] = exist"
| "addr_exists addr exist (a # addrList) =
     addr_exists addr (if Addr_Equal a addr then True else exist) addrList"

text \<open>The part of \<^verbatim>\<open>Serve\<close> that puts the router ID on the loopback link: the
  error it returns with, if any, and the kernel.\<close>

definition Serve_loopback :: "parsers \<Rightarrow> Dataplane \<Rightarrow> kernel \<Rightarrow> Serve_error option \<times> kernel" where
  "Serve_loopback L d k =
     (case LinkByName k ''lo'' of
        None \<Rightarrow> (Some Failed_to_get_lo, k)
      | Some lo \<Rightarrow>
          (case AddrList k lo FAMILY_ALL of
             None \<Rightarrow> (Some Failed_to_get_addr_list, k)
           | Some addrList \<Rightarrow>
               (case ParseAddr L (routerId d @ ''/32'') of
                  None \<Rightarrow> (Some (Failed_to_parse_addr (routerId d)), k)
                | Some addr \<Rightarrow>
                    let exist = addr_exists addr False addrList
                    in if \<not> exist then
                         (case AddrAdd k lo addr of
                            (failed, k1) \<Rightarrow>
                              if failed then (Some (Failed_to_add_addr addr), k1)
                              else (None, k1))
                       else (None, k))))"

text \<open>The path of the router ID that \<^verbatim>\<open>Serve\<close> sends to \<^verbatim>\<open>advPathCh\<close>; its
  source is nil.\<close>

definition router_id_path :: "Dataplane \<Rightarrow> Path" where
  "router_id_path d =
     \<lparr>Nlri = routerId d @ ''/32'', Nlri_AFI = AFI_IP, Nlri_SAFI = SAFI_UNICAST,
      Source = None, IsWithdraw = False,
      PathAttrs = [PathAttributeNextHop [0, 0, 0, 0], PathAttributeOrigin 0]\<rparr>"

text \<open>
  The state of \<^verbatim>\<open>Serve\<close>: the dataplane, the kernel, the paths sent to
  \<^verbatim>\<open>advPathCh\<close> by \<^verbatim>\<open>Serve\<close> itself, the \<^verbatim>\<open>AddPath\<close> requests made to the BGP
  speaker, the workers started with \<^verbatim>\<open>d.t.Go(vn.Serve)\<close>, the receivers of the calls
  of \<^verbatim>\<open>Stop\<close> (\<open>None\<close> is the nil pointer), and the durations, in seconds, of the
  calls of \<^verbatim>\<open>time.Sleep\<close>.
\<close>

record Serve_state =
  dp :: Dataplane
  kern :: kernel
  advertised :: "Path list"
  AddPath_requests :: "api_Path list"
  started :: "VirtualNetwork_worker list"
  Stop_calls :: "VirtualNetwork_worker option list"
  slept :: "nat list"

text \<open>What the \<^verbatim>\<open>select\<close> of the second loop receives.\<close>

datatype Serve_event =
    Dying
  | From_modRibCh "Path list"
  | From_advPathCh Path
  | From_addVnCh VirtualNetwork
  | From_delVnCh VirtualNetwork

text \<open>
  Where \<^verbatim>\<open>Serve\<close> is, and its state there: still in its first loop, in its second
  loop, returned (with its error, if any), or ended by a panic.
\<close>

datatype Serve_result =
    Connecting Serve_state
  | Serving Serve_state
  | Returned "Serve_error option" Serve_state
  | Panicked panic Serve_state

text \<open>One turn of the second loop. An error of \<^verbatim>\<open>modRib\<close> or of \<^verbatim>\<open>AddPath\<close> is
  logged, and the loop goes on. The map lookup \<^verbatim>\<open>d.vnMap[v.RD]\<close> gives the nil
  pointer for an RD that is not a key, and \<^verbatim>\<open>delete\<close> does nothing for it.\<close>

fun Serve_step :: "parsers \<Rightarrow> Stop_method \<Rightarrow> Serve_state \<Rightarrow> Serve_event \<Rightarrow> Serve_result" where
  "Serve_step L Stop st Dying = Returned None st"
| "Serve_step L Stop st (From_modRibCh paths) =
     Serving (st\<lparr>kern := snd (modRib L (dp st) (kern st) paths)\<rparr>)"
| "Serve_step L Stop st (From_advPathCh p) =
     Serving (st\<lparr>AddPath_requests := AddPath_requests st @ [toPathApi p]\<rparr>)"
| "Serve_step L Stop st (From_addVnCh v) =
     (let vn = NewVirtualNetwork v (routerId (dp st)) (grpcHost (dp st))
      in Serving (st\<lparr>dp := (dp st)\<lparr>vnMap := (vnMap (dp st))(RD v \<mapsto> vn)\<rparr>,
                      started := started st @ [vn]\<rparr>))"
| "Serve_step L Stop st (From_delVnCh v) =
     (let vn = vnMap (dp st) (RD v);
          st1 = st\<lparr>Stop_calls := Stop_calls st @ [vn]\<rparr>
      in case Stop vn of
           Some p \<Rightarrow> Panicked p st1
         | None \<Rightarrow>
             Serving (st1\<lparr>dp := (dp st)\<lparr>vnMap := (vnMap (dp st))(RD v := None)\<rparr>\<rparr>))"

fun Serve_loop ::
  "parsers \<Rightarrow> Stop_method \<Rightarrow> Serve_state \<Rightarrow> Serve_event list \<Rightarrow> Serve_result" where
  "Serve_loop L Stop st [] = Serving st"
| "Serve_loop L Stop st (ev # evs) =
     (case Serve_step L Stop st ev of
        Serving st1 \<Rightarrow> Serve_loop L Stop st1 evs
      | r \<Rightarrow> r)"

text \<open>
  \<^verbatim>\<open>Serve\<close>, for the outcomes of the dials and the events that the second loop
  receives, in the order in which it receives them. The batches on \<^verbatim>\<open>modRibCh\<close> are
  those that \<^verbatim>\<open>monitorBest\<close>, which \<^verbatim>\<open>Serve\<close> starts before its second loop, sends.
  Between the first loop and the second one \<^verbatim>\<open>Serve\<close> puts the router ID on the
  loopback link, sends the path of the router ID to \<^verbatim>\<open>advPathCh\<close> and sleeps 10
  seconds.
\<close>

definition Serve ::
  "parsers \<Rightarrow> Stop_method \<Rightarrow> Dataplane \<Rightarrow> kernel \<Rightarrow> bool list \<Rightarrow> Serve_event list
     \<Rightarrow> Serve_result" where
  "Serve L Stop d k dials evs =
     (case Serve_connect d dials [] of
        (left, d1, slept1) \<Rightarrow>
          let st = \<lparr>dp = d1, kern = k, advertised = [], AddPath_requests = [], started = [],
                    Stop_calls = [], slept = slept1\<rparr>
          in if \<not> left then Connecting st
             else
               (case Serve_loopback L d1 k of
                  (Some e, k1) \<Rightarrow> Returned (Some e) (st\<lparr>kern := k1\<rparr>)
                | (None, k1) \<Rightarrow>
                    Serve_loop L Stop
                      (st\<lparr>kern := k1, advertised := [router_id_path d1],
                          slept := slept1 @ [10]\<rparr>) evs))"

text \<open>The state of a result.\<close>

fun state_of :: "Serve_result \<Rightarrow> Serve_state" where
  "state_of (Connecting st) = st"
| "state_of (Serving st) = st"
| "state_of (Returned e st) = st"
| "state_of (Panicked p st) = st"

section \<open>Example inputs\<close>

text \<open>Parsers that know the texts of the examples, with the results of the Go
  functions for them.\<close>

definition example_parsers :: parsers where
  "example_parsers =
     \<lparr>ParseIP = (\<lambda>s. if s = ''10.0.0.1'' then IPv4 10 0 0 1 else []),
      ParseIPNet = (\<lambda>s. if s = ''10.0.0.0/24''
                          then Some \<lparr>IPNet_IP = IPv4 10 0 0 0, IPNet_Mask = [255, 255, 255, 0]\<rparr>
                          else None),
      ParseAddr = (\<lambda>s. if s = ''10.0.0.1/32''
                         then Some \<lparr>Addr_IPNet = \<lparr>IPNet_IP = IPv4 10 0 0 1,
                                                    IPNet_Mask = [255, 255, 255, 255]\<rparr>,
                                     Addr_Label = []\<rparr>
                         else None)\<rparr>"

definition addr_router_id :: Addr where
  "addr_router_id = \<lparr>Addr_IPNet = \<lparr>IPNet_IP = IPv4 10 0 0 1, IPNet_Mask = [255, 255, 255, 255]\<rparr>,
     Addr_Label = []\<rparr>"

definition addr_localhost :: Addr where
  "addr_localhost = \<lparr>Addr_IPNet = \<lparr>IPNet_IP = [127, 0, 0, 1], IPNet_Mask = [255, 0, 0, 0]\<rparr>,
     Addr_Label = ''lo''\<rparr>"

text \<open>The router ID as the kernel lists it once it is on the loopback link.\<close>

definition addr_router_id_listed :: Addr where
  "addr_router_id_listed = \<lparr>Addr_IPNet = \<lparr>IPNet_IP = [10, 0, 0, 1],
     IPNet_Mask = [255, 255, 255, 255]\<rparr>, Addr_Label = ''lo''\<rparr>"

text \<open>A kernel with the links lo and eth1 and an empty neighbour table.\<close>

definition kernel_plain :: kernel where
  "kernel_plain = \<lparr>links = [(''lo'', 1), (''eth1'', 2)], addrs = [(1, addr_localhost)],
     neighs = [], requests = [], failing = []\<rparr>"

definition mac_01 :: "byte list" where
  "mac_01 = [0xaa, 0xbb, 0xcc, 0, 0, 1]"

definition fe80_1 :: IP where
  "fe80_1 = [0xfe, 0x80, 0, 0, 0, 0, 0, 0, 0, 0, 0, 0, 0, 0, 0, 1]"

definition fe80_9 :: IP where
  "fe80_9 = [0xfe, 0x80, 0, 0, 0, 0, 0, 0, 0, 0, 0, 0, 0, 0, 0, 9]"

definition neigh_v6 :: Neigh where
  "neigh_v6 = \<lparr>Neigh_LinkIndex = 2, Neigh_Family = 10, Neigh_State = 2, Neigh_IP = fe80_1,
     Neigh_HardwareAddr = mac_01\<rparr>"

definition neigh_v4 :: Neigh where
  "neigh_v4 = \<lparr>Neigh_LinkIndex = 2, Neigh_Family = 2, Neigh_State = 2, Neigh_IP = [10, 0, 0, 2],
     Neigh_HardwareAddr = mac_01\<rparr>"

definition neigh_linklocal :: Neigh where
  "neigh_linklocal = \<lparr>Neigh_LinkIndex = 2, Neigh_Family = 0, Neigh_State = NUD_PERMANENT,
     Neigh_IP = IPv4 169 254 0 1, Neigh_HardwareAddr = mac_01\<rparr>"

text \<open>The neighbour fe80::1 is known on eth1, and no IPv4 neighbour has its hardware
  address.\<close>

definition kernel_v6 :: kernel where
  "kernel_v6 = kernel_plain\<lparr>neighs := [neigh_v6]\<rparr>"

text \<open>The neighbour fe80::1 is known on eth1, and so is an IPv4 neighbour with its
  hardware address.\<close>

definition kernel_v6_v4 :: kernel where
  "kernel_v6_v4 = kernel_plain\<lparr>neighs := [neigh_v6, neigh_v4]\<rparr>"

text \<open>The neighbour fe80::1 is known on eth1, no IPv4 neighbour has its hardware
  address, and eth1 has a permanent neighbour 169.254.0.1 already, with another hardware
  address (as an earlier resolution of another IPv6 neighbour leaves it).\<close>

definition mac_02 :: "byte list" where
  "mac_02 = [0xaa, 0xbb, 0xcc, 0, 0, 2]"

definition neigh_169_other :: Neigh where
  "neigh_169_other = \<lparr>Neigh_LinkIndex = 2, Neigh_Family = 2, Neigh_State = 128,
     Neigh_IP = [169, 254, 0, 1], Neigh_HardwareAddr = mac_02\<rparr>"

definition kernel_v6_taken :: kernel where
  "kernel_v6_taken = kernel_plain\<lparr>neighs := [neigh_v6, neigh_169_other]\<rparr>"

text \<open>Paths to 10.0.0.0/24: with the nexthop fe80::1, with the nexthop fe80::9 (which
  is no neighbour in the examples), a withdrawal, and one that the local speaker
  originated (the address of its source is nil).\<close>

definition path_nh_fe80_1 :: Path where
  "path_nh_fe80_1 = path_v4\<lparr>PathAttrs := [PathAttributeOrigin 0, PathAttributeMpReachNLRI fe80_1]\<rparr>"

definition path_nh_fe80_9 :: Path where
  "path_nh_fe80_9 = path_v4\<lparr>PathAttrs := [PathAttributeOrigin 0, PathAttributeMpReachNLRI fe80_9]\<rparr>"

definition path_withdraw :: Path where
  "path_withdraw = path_v4\<lparr>IsWithdraw := True\<rparr>"

definition path_self :: Path where
  "path_self = path_v4\<lparr>Source := Some \<lparr>PeerInfo_AS = 65000, PeerInfo_ID = [10, 0, 0, 1],
     PeerInfo_Address = []\<rparr>\<rparr>"

text \<open>A configuration whose BGP section has the AS number 65000 and the router ID
  10.0.0.1, one without them, and the dataplane that \<^verbatim>\<open>NewDataplane\<close> makes for each.\<close>

definition config_bgp :: Config where
  "config_bgp = config_rd10\<lparr>Config_BGP :=
     \<lparr>BgpConfigSet_Global = \<lparr>Global_Config = \<lparr>As = 65000, RouterId = ''10.0.0.1''\<rparr>\<rparr>\<rparr>\<rparr>"

definition NewDataplane :: "Config \<Rightarrow> string \<Rightarrow> Dataplane" where
  "NewDataplane c host =
     \<lparr>config = c, vnMap = Map.empty, grpcHost = host, client = False, routerId = [],
      localAS = 0\<rparr>"

definition dataplane_bgp :: Dataplane where
  "dataplane_bgp = NewDataplane config_bgp '':50051''"

definition dataplane_ready :: Dataplane where
  "dataplane_ready = dataplane_bgp\<lparr>client := True, routerId := ''10.0.0.1'', localAS := 65000\<rparr>"

text \<open>The entry that \<^verbatim>\<open>getNexthop\<close> asks the kernel to add for the IPv6 neighbour
  \<open>neigh\<close>.\<close>

definition link_local_neigh :: "Neigh \<Rightarrow> Neigh" where
  "link_local_neigh neigh =
     \<lparr>Neigh_LinkIndex = Neigh_LinkIndex neigh, Neigh_Family = 0, Neigh_State = NUD_PERMANENT,
      Neigh_IP = IPv4 169 254 0 1, Neigh_HardwareAddr = Neigh_HardwareAddr neigh\<rparr>"

text \<open>A withdrawal of another prefix, the route of 10.0.0.0/24 before \<^verbatim>\<open>modRib\<close>
  fills in its nexthops, and the nexthop entry of 192.168.0.2.\<close>

definition path_other_withdraw :: Path where
  "path_other_withdraw = path_v4\<lparr>Nlri := ''10.1.0.0/24'', IsWithdraw := True\<rparr>"

definition route_10_0_0_0 :: Route where
  "route_10_0_0_0 =
     \<lparr>Route_LinkIndex = 0,
      Route_Dst = Some \<lparr>IPNet_IP = IPv4 10 0 0 0, IPNet_Mask = [255, 255, 255, 0]\<rparr>,
      Route_Src = IPv4 10 0 0 1, Route_Gw = [], Route_MultiPath = [], Route_Flags = 0\<rparr>"

definition nexthop_192_168_0_2 :: NexthopInfo where
  "nexthop_192_168_0_2 =
     \<lparr>NexthopInfo_LinkIndex = 0, NexthopInfo_Gw = [192, 168, 0, 2], NexthopInfo_Flags = 0\<rparr>"

definition nexthop_none :: NexthopInfo where
  "nexthop_none = \<lparr>NexthopInfo_LinkIndex = 0, NexthopInfo_Gw = [], NexthopInfo_Flags = 0\<rparr>"

text \<open>A path to 10.1.0.0/24 that the local speaker originated, parsers that know this
  prefix too, and the route to it before \<^verbatim>\<open>modRib\<close> fills in its nexthops.\<close>

definition path_self_10_1 :: Path where
  "path_self_10_1 = path_self\<lparr>Nlri := ''10.1.0.0/24''\<rparr>"

definition parsers_10_1 :: parsers where
  "parsers_10_1 =
     \<lparr>ParseIP = (\<lambda>s. if s = ''10.0.0.1'' then IPv4 10 0 0 1 else []),
      ParseIPNet = (\<lambda>s. if s = ''10.0.0.0/24''
                          then Some \<lparr>IPNet_IP = IPv4 10 0 0 0, IPNet_Mask = [255, 255, 255, 0]\<rparr>
                          else if s = ''10.1.0.0/24''
                          then Some \<lparr>IPNet_IP = IPv4 10 1 0 0, IPNet_Mask = [255, 255, 255, 0]\<rparr>
                          else None),
      ParseAddr = (\<lambda>s. None)\<rparr>"

definition route_10_1_0_0 :: Route where
  "route_10_1_0_0 =
     \<lparr>Route_LinkIndex = 0,
      Route_Dst = Some \<lparr>IPNet_IP = IPv4 10 1 0 0, IPNet_Mask = [255, 255, 255, 0]\<rparr>,
      Route_Src = IPv4 10 0 0 1, Route_Gw = [], Route_MultiPath = [], Route_Flags = 0\<rparr>"

text \<open>The VirtualNetwork of RD 65000:10 with its VXLAN interface, a MAC/IP
  advertisement of that RD, and an EVPN path that the local speaker originated.\<close>

definition ctx_rd10 :: vnw_ctx where
  "ctx_rd10 = \<lparr>ctx_config = vn_rd10, ctx_vxlan_iface = ''vtep10''\<rparr>"

definition adv_mac_01 :: MacIpAdvertisement where
  "adv_mac_01 = \<lparr>Adv_RD = RD vn_rd10, Adv_Etag = Etag vn_rd10, Adv_MAC = mac_01\<rparr>"

definition path_evpn_self :: Path where
  "path_evpn_self = path_evpn\<lparr>Source := Some \<lparr>PeerInfo_AS = 65000, PeerInfo_ID = [10, 0, 0, 1],
     PeerInfo_Address = []\<rparr>\<rparr>"

text \<open>A kernel whose loopback link has the router ID already, and the state in which
  the second loop of \<^verbatim>\<open>Serve\<close> starts for the example dataplane.\<close>

definition kernel_with_router_id :: kernel where
  "kernel_with_router_id = kernel_plain\<lparr>addrs := [(1, addr_localhost), (1, addr_router_id_listed)]\<rparr>"


text \<open>A \<^verbatim>\<open>Stop\<close> that reads a field of its receiver, as a method that ends the
  worker's goroutines does, and one that does not touch its receiver.\<close>

definition Stop_reading :: Stop_method where
  "Stop_reading vn = (case vn of None \<Rightarrow> Some Nil_pointer_dereference | Some w \<Rightarrow> None)"



section \<open>Differencing of snapshots\<close>

lemma inSlice_from_neg: "(inSlice_from idx one list < 0) = (RD one \<notin> RD ` set list)"
  by (induction list arbitrary: idx) auto

lemma inSlice_neg: "(inSlice one list < 0) = (RD one \<notin> RD ` set list)"
  by (simp add: inSlice_def inSlice_from_neg)

lemma collect_missing_filter:
  "collect_missing ns other = filter (\<lambda>n. RD n \<notin> RD ` set other) ns"
  by (induction ns) (simp_all add: inSlice_neg)

lemma collect_missing_self: "collect_missing ns ns = []"
  by (simp add: collect_missing_filter filter_empty_conv)

text \<open>
  Claim C2, as the code has it: differencing is keyed by the RD alone. The added list
  is the new snapshot's VirtualNetworks whose RD is in no VirtualNetwork of the old one,
  the deleted list is the old snapshot's VirtualNetworks whose RD is in none of the new
  one, both in the order of their snapshot; a VirtualNetwork whose RD is in both
  snapshots is in neither list, whatever its other fields are.
\<close>

theorem UpdateConfig_keyed_by_RD:
  assumes "UpdateConfig (Some cur) new = (added, deleted)"
  shows "added = filter (\<lambda>n. RD n \<notin> RD ` set (VirtualNetworkList cur)) (VirtualNetworkList new)
    \<and> deleted = filter (\<lambda>n. RD n \<notin> RD ` set (VirtualNetworkList new)) (VirtualNetworkList cur)
    \<and> (RD n \<in> RD ` set (VirtualNetworkList cur) \<and> RD n \<in> RD ` set (VirtualNetworkList new)
         \<longrightarrow> n \<notin> set added \<and> n \<notin> set deleted)"
proof -
  from assms have a: "added = filter (\<lambda>n. RD n \<notin> RD ` set (VirtualNetworkList cur)) (VirtualNetworkList new)"
    and d: "deleted = filter (\<lambda>n. RD n \<notin> RD ` set (VirtualNetworkList new)) (VirtualNetworkList cur)"
    by (simp_all add: UpdateConfig_def collect_missing_filter)
  from a d show ?thesis by simp
qed

theorem UpdateConfig_keyed_by_RD_witness:
  "UpdateConfig (Some snapshot_old) snapshot_other = ([vn_rd20], [vn_rd10])
   \<and> [vn_rd20] = filter (\<lambda>n. RD n \<notin> RD ` set (VirtualNetworkList snapshot_old))
        (VirtualNetworkList snapshot_other)
   \<and> [vn_rd10] = filter (\<lambda>n. RD n \<notin> RD ` set (VirtualNetworkList snapshot_other))
        (VirtualNetworkList snapshot_old)"
proof -
  have h: "UpdateConfig (Some snapshot_old) snapshot_other = ([vn_rd20], [vn_rd10])"
    by (simp add: UpdateConfig_def inSlice_def snapshot_old_def snapshot_other_def
        vn_rd10_def vn_rd20_def)
  from UpdateConfig_keyed_by_RD [OF h, of vn_rd10] h show ?thesis
    by blast
qed

text \<open>
  Claim C2 as stated fails: the VirtualNetwork of RD 65000:10 changes its VNI from 10 to
  11 between two snapshots, and it is neither deleted nor added.
\<close>

theorem UpdateConfig_changed_fields_counterexample:
  "RD (vn_rd10\<lparr>VNI := 11\<rparr>) = RD vn_rd10 \<and> vn_rd10\<lparr>VNI := 11\<rparr> \<noteq> vn_rd10
   \<and> UpdateConfig (Some snapshot_old) snapshot_new = ([], [])"
  by (simp add: UpdateConfig_def inSlice_def snapshot_old_def snapshot_new_def vn_rd10_def)

text \<open>
  Claim C8: differencing a snapshot against itself gives an empty added list and an
  empty deleted list, so applying a snapshot a second time asks for no worker to be
  created and none to be destroyed.
\<close>

theorem UpdateConfig_idempotent:
  "UpdateConfig (Some S) S = ([], [])
   \<and> apply_snapshot (fst (apply_snapshot d S)) S = (Some S, [], [])"
  by (simp add: UpdateConfig_def apply_snapshot_def collect_missing_self)

section \<open>The configuration reader\<close>

text \<open>A request that finds a file it cannot load ends the reader; the requests after
  it are never served, and those before it are served as they would be without it.\<close>

lemma ReadConfigfileServe_fatal_step:
  "f = ReadInConfig_fails \<or> f = UnmarshalExact_fails
     \<Longrightarrow> ReadConfigfileServe sdv (f # later) = ([], Process_exited)"
  by auto

lemma ReadConfigfileServe_exited_append:
  "snd (ReadConfigfileServe sdv pre) = Process_exited
     \<Longrightarrow> ReadConfigfileServe sdv (pre @ later) = ReadConfigfileServe sdv pre"
proof (induction sdv pre rule: ReadConfigfileServe.induct)
  case (1 sdv)
  then show ?case by simp
next
  case (2 sdv reloads)
  then show ?case by simp
next
  case (3 sdv reloads)
  then show ?case by simp
next
  case (4 sdv c reloads)
  then show ?case
    by (auto split: option.splits prod.splits if_splits)
qed

lemma ReadConfigfileServe_waiting_append:
  "snd (ReadConfigfileServe sdv pre) = Waiting_for_reload
     \<Longrightarrow> ReadConfigfileServe sdv (pre @ later)
         = (fst (ReadConfigfileServe sdv pre) @ fst (ReadConfigfileServe sdv later),
            snd (ReadConfigfileServe sdv later))"
proof (induction sdv pre rule: ReadConfigfileServe.induct)
  case (1 sdv)
  then show ?case by simp
next
  case (2 sdv reloads)
  then show ?case by simp
next
  case (3 sdv reloads)
  then show ?case by simp
next
  case (4 sdv c reloads)
  then show ?case
    by (auto split: option.splits prod.splits if_splits)
qed

text \<open>
  Claim C6, as the code has it: a configuration file that cannot be read or cannot be
  unmarshalled ends the process whenever it is met, at the startup request and at every
  later reload request alike. For requests \<open>pre\<close> that were all served (the reader is
  waiting again after them), a request that finds such a file leaves the reader exited,
  with no message sent beyond those of \<open>pre\<close>, whatever requests \<open>later\<close> follow.
\<close>

theorem ReadConfigfileServe_invalid_is_fatal:
  assumes "snd (ReadConfigfileServe sdv pre) = Waiting_for_reload"
    and "f = ReadInConfig_fails \<or> f = UnmarshalExact_fails"
  shows "ReadConfigfileServe sdv (pre @ f # later)
           = (fst (ReadConfigfileServe sdv pre), Process_exited)"
  using assms
  by (simp add: ReadConfigfileServe_waiting_append ReadConfigfileServe_fatal_step)

theorem ReadConfigfileServe_invalid_is_fatal_witness:
  "snd (ReadConfigfileServe Some [Parsed config_rd10]) = Waiting_for_reload
   \<and> ReadConfigfileServe Some ([Parsed config_rd10] @ UnmarshalExact_fails # [Parsed config_rd10])
       = ([To_configCh config_rd10], Process_exited)"
proof -
  have h: "snd (ReadConfigfileServe Some [Parsed config_rd10]) = Waiting_for_reload"
    by (simp add: config_rd10_def)
  have v: "fst (ReadConfigfileServe Some [Parsed config_rd10]) = [To_configCh config_rd10]"
    by (simp add: config_rd10_def)
  from ReadConfigfileServe_invalid_is_fatal
         [OF h, of UnmarshalExact_fails "[Parsed config_rd10]"] h v
  show ?thesis by simp
qed

text \<open>
  Claim C6 as stated fails: the file loads at startup, and at the reload request that
  follows it cannot be read. The process has exited: it did not survive the reload.
\<close>

theorem ReadConfigfileServe_reload_counterexample:
  "ReadConfigfileServe Some [Parsed config_rd10, ReadInConfig_fails]
     = ([To_configCh config_rd10], Process_exited)"
  by (simp add: config_rd10_def)

section \<open>The best-path watcher\<close>

lemma route_family_split:
  fixes a s :: int
  assumes "0 \<le> s" "s < 65536"
  shows "(65537 = a * 65536 + s) = (a = 1 \<and> s = 1)"
proof
  assume h: "65537 = a * 65536 + s"
  have "a = (a * 65536 + s) div 65536" using assms by simp
  then have "a = 65537 div 65536" by (simp only: h [symmetric])
  then have a1: "a = 1" by simp
  with h show "a = 1 \<and> s = 1" by simp
next
  assume "a = 1 \<and> s = 1"
  then show "65537 = a * 65536 + s" by simp
qed

lemma AfiSafiToRouteFamily_sum:
  "AfiSafiToRouteFamily afi safi = uint afi * 65536 + uint safi"
proof -
  have "push_bit 16 (uint afi) + uint safi = push_bit 16 (uint afi) OR uint safi"
    by (rule disjunctive_add) (auto simp: bit_push_bit_iff bit_uint_iff dest: bit_imp_le_length)
  then show ?thesis
    by (simp add: AfiSafiToRouteFamily_def push_bit_eq_mult)
qed

lemma check_family_iff:
  "check_family (AfiSafiToRouteFamily AFI_IP SAFI_UNICAST) False paths
     = (\<not> list_all ipv4_unicast paths)"
proof (induction paths)
  case Nil
  then show ?case by simp
next
  case (Cons path paths)
  have fam: "\<And>p. (AfiSafiToRouteFamily AFI_IP SAFI_UNICAST = GetRouteFamily p)
               = (Nlri_AFI p = AFI_IP \<and> Nlri_SAFI p = SAFI_UNICAST)"
  proof -
    fix p :: Path
    have a: "uint (Nlri_SAFI p) < 65536"
      using uint_lt2p [of "Nlri_SAFI p"] by simp
    have b: "0 \<le> uint (Nlri_SAFI p)" by simp
    have c: "0 \<le> uint (Nlri_AFI p)" by simp
    have d: "(uint (Nlri_AFI p) = 1) = (Nlri_AFI p = 1)"
      using word_uint_eq_iff [of "Nlri_AFI p" 1] by simp
    have e: "(uint (Nlri_SAFI p) = 1) = (Nlri_SAFI p = 1)"
      using word_uint_eq_iff [of "Nlri_SAFI p" 1] by simp
    have "(65537 = uint (Nlri_AFI p) * 65536 + uint (Nlri_SAFI p))
             = (uint (Nlri_AFI p) = 1 \<and> uint (Nlri_SAFI p) = 1)"
      using route_family_split [OF b a] .
    then show "(AfiSafiToRouteFamily AFI_IP SAFI_UNICAST = GetRouteFamily p)
               = (Nlri_AFI p = AFI_IP \<and> Nlri_SAFI p = SAFI_UNICAST)"
      by (simp add: AfiSafiToRouteFamily_sum GetRouteFamily_def AFI_IP_def SAFI_UNICAST_def d e)
  qed
  show ?case
    using Cons.IH by (cases path) (auto simp: ipv4_unicast_def fam)
qed

lemma monitorBest_event_eq:
  "monitorBest_event (False, sent) ev
     = (False, if list_all ipv4_unicast (event_paths ev) then sent @ [event_paths ev] else sent)"
  by (simp add: monitorBest_event_def Let_def check_family_iff)

lemma monitorBest_foldl:
  "foldl monitorBest_event (False, sent) evs
     = (False, sent @ filter (list_all ipv4_unicast) (map event_paths evs))"
  by (induction evs arbitrary: sent) (simp_all add: monitorBest_event_eq)

text \<open>
  Claim C1: of the batches of a sequence of events, the watcher forwards to
  \<^verbatim>\<open>modRibCh\<close>, unchanged and in order, exactly those whose paths are all IPv4-unicast
  paths. So a batch with a path of another route family is forwarded neither whole nor in
  part, and the flag \<^verbatim>\<open>exitCurrentLoop\<close> is clear again after every event.
\<close>

theorem monitorBest_drops_mixed_batches:
  "monitorBest evs = (False, filter (list_all ipv4_unicast) (map event_paths evs))
   \<and> (ev \<in> set evs \<and> Some p \<in> set (event_paths ev) \<and> \<not> ipv4_unicast (Some p)
        \<longrightarrow> event_paths ev \<notin> set (snd (monitorBest evs))
          \<and> (\<forall>batch \<in> set (snd (monitorBest evs)). Some p \<notin> set batch))
   \<and> (ev \<in> set evs \<and> list_all ipv4_unicast (event_paths ev)
        \<longrightarrow> event_paths ev \<in> set (snd (monitorBest evs)))"
proof -
  have eq: "monitorBest evs = (False, filter (list_all ipv4_unicast) (map event_paths evs))"
    using monitorBest_foldl [of "[]" evs] by (simp add: monitorBest_def)
  have drop: "event_paths ev \<notin> set (snd (monitorBest evs))
          \<and> (\<forall>batch \<in> set (snd (monitorBest evs)). Some p \<notin> set batch)"
    if "Some p \<in> set (event_paths ev)" "\<not> ipv4_unicast (Some p)"
    using that by (auto simp: eq list_all_iff)
  have keep: "event_paths ev \<in> set (snd (monitorBest evs))"
    if "ev \<in> set evs" "list_all ipv4_unicast (event_paths ev)"
    using that by (simp add: eq)
  from eq drop keep show ?thesis by blast
qed

theorem monitorBest_drops_mixed_batches_witness:
  "monitorBest [WatchEventBestPath [Some path_v4] [],
                WatchEventBestPath [Some path_v4, Some path_evpn] []]
     = (False, [[Some path_v4]])
   \<and> \<not> ipv4_unicast (Some path_evpn) \<and> ipv4_unicast (Some path_v4)
   \<and> [Some path_v4, Some path_evpn] \<notin> set (snd (monitorBest
         [WatchEventBestPath [Some path_v4] [],
          WatchEventBestPath [Some path_v4, Some path_evpn] []]))
   \<and> [Some path_v4] \<in> set (snd (monitorBest
         [WatchEventBestPath [Some path_v4] [],
          WatchEventBestPath [Some path_v4, Some path_evpn] []]))"
proof -
  have e: "\<not> ipv4_unicast (Some path_evpn)"
    by (simp add: ipv4_unicast_def path_evpn_def AFI_IP_def)
  have v: "ipv4_unicast (Some path_v4)"
    by (simp add: ipv4_unicast_def path_v4_def AFI_IP_def SAFI_UNICAST_def)
  from monitorBest_drops_mixed_batches
         [of "[WatchEventBestPath [Some path_v4] [],
               WatchEventBestPath [Some path_v4, Some path_evpn] []]"
             "WatchEventBestPath [Some path_v4, Some path_evpn] []" path_evpn]
       monitorBest_drops_mixed_batches
         [of "[WatchEventBestPath [Some path_v4] [],
               WatchEventBestPath [Some path_v4, Some path_evpn] []]"
             "WatchEventBestPath [Some path_v4] []" path_evpn]
       e v
  show ?thesis by simp
qed

section \<open>The text of an address\<close>

lemma hexDigit_in: "m < 16 \<Longrightarrow> hexDigit m \<in> text_chars"
proof -
  assume "m < 16"
  then have "hexDigit m \<in> set ''0123456789abcdef''"
    unfolding hexDigit_def by (intro nth_mem) simp
  then show ?thesis unfolding text_chars_def by auto
qed

lemma punct_in: "CHR ''.'' \<in> text_chars" "CHR '':'' \<in> text_chars" "CHR ''?'' \<in> text_chars"
  "CHR ''0'' \<in> text_chars"
  by (simp_all add: text_chars_def)

lemma byte_bound: "unat (v :: byte) < 256"
  using unsigned_less [of v, where ?'a = nat] by simp

lemma ubtoa_chars: "set (ubtoa v) \<subseteq> text_chars"
proof -
  have u: "unat v < 256" by (rule byte_bound)
  have a: "hexDigit (unat v div 100) \<in> text_chars" "hexDigit (unat v div 10 mod 10) \<in> text_chars"
    "hexDigit (unat v mod 10) \<in> text_chars"
    using u by (auto intro!: hexDigit_in)
  have b: "unat v < 100 \<Longrightarrow> hexDigit (unat v div 10) \<in> text_chars"
    by (rule hexDigit_in) auto
  have c: "unat v < 10 \<Longrightarrow> hexDigit (unat v) \<in> text_chars"
    by (rule hexDigit_in) auto
  show ?thesis
    using a b c by (simp add: ubtoa_def Let_def)
qed

lemma hexString_chars: "set (hexString b) \<subseteq> text_chars"
proof -
  have "hexDigit (unat tn div 16) \<in> text_chars \<and> hexDigit (unat tn mod 16) \<in> text_chars" for tn :: byte
    using byte_bound [of tn] by (auto intro!: hexDigit_in)
  then show ?thesis by (auto simp: hexString_def)
qed

lemma appendHex_chars: "set (appendHex i) \<subseteq> text_chars"
proof -
  have "hexDigit (n mod 16) \<in> text_chars" for n
    by (rule hexDigit_in) simp
  then show ?thesis by (auto simp: appendHex_def punct_in)
qed

lemma join_groups_chars: "set (join_groups gs) \<subseteq> text_chars"
  using appendHex_chars by (auto simp: join_groups_def punct_in)

lemma IPv6_text_chars: "set (IPv6_text p) \<subseteq> text_chars"
  using join_groups_chars by (auto simp: IPv6_text_def punct_in split: prod.splits)

lemma IP_String_chars: "ip \<noteq> [] \<Longrightarrow> set (IP_String ip) \<subseteq> text_chars"
  using ubtoa_chars hexString_chars IPv6_text_chars
  by (simp add: IP_String_def punct_in)

lemma IP_String_nil_iff: "(IP_String ip = ''<nil>'') = (ip = [])"
proof
  assume s: "IP_String ip = ''<nil>''"
  show "ip = []"
  proof (rule ccontr)
    assume "ip \<noteq> []"
    from IP_String_chars [OF this] s have "CHR ''<'' \<in> text_chars" by simp
    then show False by (simp add: text_chars_def)
  qed
next
  assume "ip = []"
  then show "IP_String ip = ''<nil>''" by (simp add: IP_String_def)
qed

lemma NeighborIp_nil_iff:
  "(NeighborIp (toPathApi p) = ''<nil>'') = (\<exists>s. Source p = Some s \<and> PeerInfo_Address s = [])"
  by (cases "Source p") (simp_all add: toPathApi_def toPathAPI_def Let_def IP_String_nil_iff)

section \<open>Nexthop resolution\<close>

lemma getNexthop_nil_neighbor:
  "NeighborIp p = ''<nil>'' \<Longrightarrow> getNexthop k (Some p) = ((0, [], 0), k)"
  by (simp add: getNexthop_def)

lemma getNexthop_ipv4:
  assumes "NeighborIp p \<noteq> ''<nil>''"
    and "To4 (getNextHopFromPathAttributes (GetNativePathAttributes p)) \<noteq> []"
  shows "getNexthop k (Some p)
           = ((0, To4 (getNextHopFromPathAttributes (GetNativePathAttributes p)), 0), k)"
  using assms by (simp add: getNexthop_def Let_def)

lemma getNexthop_found:
  assumes "NeighborIp p \<noteq> ''<nil>''"
    and "To4 (getNextHopFromPathAttributes (GetNativePathAttributes p)) = []"
    and "NeighList k 0 FAMILY_V6 = Some list6"
    and "find (\<lambda>n. IP_Equal (Neigh_IP n) (getNextHopFromPathAttributes (GetNativePathAttributes p)))
           list6 = Some neigh"
    and "NeighList k (Neigh_LinkIndex neigh) FAMILY_V4 = Some list4"
    and "find (\<lambda>n. HardwareAddr_String (Neigh_HardwareAddr n)
                      = HardwareAddr_String (Neigh_HardwareAddr neigh)) list4 = Some n"
  shows "getNexthop k (Some p) = ((Neigh_LinkIndex n, To4 (Neigh_IP n), FLAG_ONLINK), k)"
  using assms by (simp add: getNexthop_def Let_def)

lemma getNexthop_not_found:
  assumes "NeighborIp p \<noteq> ''<nil>''"
    and "To4 (getNextHopFromPathAttributes (GetNativePathAttributes p)) = []"
    and "NeighList k 0 FAMILY_V6 = Some list6"
    and "find (\<lambda>n. IP_Equal (Neigh_IP n) (getNextHopFromPathAttributes (GetNativePathAttributes p)))
           list6 = Some neigh"
    and "NeighList k (Neigh_LinkIndex neigh) FAMILY_V4 = Some list4"
    and "find (\<lambda>n. HardwareAddr_String (Neigh_HardwareAddr n)
                      = HardwareAddr_String (Neigh_HardwareAddr neigh)) list4 = None"
  shows "getNexthop k (Some p)
           = ((Neigh_LinkIndex neigh, IPv4 169 254 0 1, FLAG_ONLINK),
              snd (NeighAdd k (link_local_neigh neigh)))"
  using assms by (simp add: getNexthop_def Let_def link_local_neigh_def)

lemma NeighAdd_requests:
  "requests (snd (NeighAdd k n)) = requests k @ [NeighAdd_request n]"
  by (simp add: NeighAdd_def Let_def)

lemma NeighAdd_frame:
  "links (snd (NeighAdd k n)) = links k \<and> addrs (snd (NeighAdd k n)) = addrs k
   \<and> failing (snd (NeighAdd k n)) = failing k"
  by (simp add: NeighAdd_def Let_def)

lemma NeighList_v4_member:
  assumes "NeighList k link FAMILY_V4 = Some list4"
    and "find P list4 = Some n"
  shows "n \<in> set (neighs k) \<and> Neigh_Family n = FAMILY_V4 \<and> P n
         \<and> (link = 0 \<or> Neigh_LinkIndex n = link)"
proof -
  from assms(2) have "n \<in> set list4 \<and> P n"
    by (auto simp: find_Some_iff)
  with assms(1) show ?thesis
    by (auto simp: NeighList_def FAMILY_V4_def FAMILY_ALL_def split: if_splits)
qed

lemma NeighAdd_accepted:
  assumes "Call_NeighAdd \<notin> set (failing k)"
    and "\<not> list_ex (\<lambda>n. Neigh_LinkIndex n = Neigh_LinkIndex neigh
                          \<and> IP_Equal (Neigh_IP n) (Neigh_IP neigh)) (neighs k)"
  shows "NeighAdd k neigh
           = (False, k\<lparr>requests := requests k @ [NeighAdd_request neigh],
                        neighs := neighs k @ [neigh\<lparr>Neigh_Family := GetIPFamily (Neigh_IP neigh)\<rparr>]\<rparr>)"
  using assms by (simp add: NeighAdd_def Let_def)

lemma NeighAdd_refused:
  assumes "Call_NeighAdd \<in> set (failing k)
           \<or> list_ex (\<lambda>n. Neigh_LinkIndex n = Neigh_LinkIndex neigh
                           \<and> IP_Equal (Neigh_IP n) (Neigh_IP neigh)) (neighs k)"
  shows "NeighAdd k neigh = (True, k\<lparr>requests := requests k @ [NeighAdd_request neigh]\<rparr>)"
  using assms by (auto simp: NeighAdd_def Let_def)

lemma GetIPFamily_link_local: "GetIPFamily (IPv4 169 254 0 1) = FAMILY_V4"
  by (simp add: GetIPFamily_def IPv4_def v4InV6Prefix_def To4_def isZeros_def)

text \<open>
  Claim C3, as the code has it. For a path that is not nil and whose NeighborIp is not
  \<^verbatim>\<open><nil>\<close>, with nexthop \<open>nh\<close>: if \<open>nh\<close> is an IPv4 address, it is returned with link 0
  and flags 0 and the kernel is not touched. Otherwise, when \<open>nh\<close> is found in the IPv6
  neighbour table as \<open>neigh\<close>: if an entry \<open>n\<close> of the IPv4 neighbour table (of the link of
  \<open>neigh\<close>) has the hardware address of \<open>neigh\<close>, the first such entry gives the result
  (link of \<open>n\<close>, IPv4 address of \<open>n\<close>, FLAG_ONLINK) and the kernel is not touched; if
  there is none, the result is (link of \<open>neigh\<close>, 169.254.0.1, FLAG_ONLINK) and exactly one
  request is made, to add the permanent neighbour \<open>entry\<close>: 169.254.0.1 with that hardware
  address on the link of \<open>neigh\<close>. When the kernel accepts the request, \<open>entry\<close> is installed:
  it is in the neighbour table afterwards, as an IPv4 neighbour, after the entries that
  were there, and nothing else has changed. The kernel refuses the request when it fails
  the call or when the link has a neighbour 169.254.0.1 already; then the neighbour table
  is as it was.
\<close>

theorem getNexthop_resolution:
  assumes "NeighborIp p \<noteq> ''<nil>''"
    and "nh = getNextHopFromPathAttributes (GetNativePathAttributes p)"
    and "entry = \<lparr>Neigh_LinkIndex = Neigh_LinkIndex neigh, Neigh_Family = 0,
                    Neigh_State = NUD_PERMANENT, Neigh_IP = IPv4 169 254 0 1,
                    Neigh_HardwareAddr = Neigh_HardwareAddr neigh\<rparr>"
  shows "(To4 nh \<noteq> [] \<longrightarrow> getNexthop k (Some p) = ((0, To4 nh, 0), k))
    \<and> (To4 nh = [] \<and> NeighList k 0 FAMILY_V6 = Some list6
          \<and> find (\<lambda>n. IP_Equal (Neigh_IP n) nh) list6 = Some neigh
          \<and> NeighList k (Neigh_LinkIndex neigh) FAMILY_V4 = Some list4
        \<longrightarrow>
          (find (\<lambda>n. HardwareAddr_String (Neigh_HardwareAddr n)
                       = HardwareAddr_String (Neigh_HardwareAddr neigh)) list4 = Some n
             \<longrightarrow> getNexthop k (Some p)
                   = ((Neigh_LinkIndex n, To4 (Neigh_IP n), FLAG_ONLINK), k)
                 \<and> n \<in> set (neighs k) \<and> Neigh_Family n = FAMILY_V4
                 \<and> (Neigh_LinkIndex neigh = 0 \<or> Neigh_LinkIndex n = Neigh_LinkIndex neigh))
        \<and> (find (\<lambda>n. HardwareAddr_String (Neigh_HardwareAddr n)
                       = HardwareAddr_String (Neigh_HardwareAddr neigh)) list4 = None
             \<longrightarrow> fst (getNexthop k (Some p))
                   = (Neigh_LinkIndex neigh, IPv4 169 254 0 1, FLAG_ONLINK)
                 \<and> requests (snd (getNexthop k (Some p)))
                   = requests k @ [NeighAdd_request entry]
                 \<and> (Call_NeighAdd \<notin> set (failing k)
                      \<and> \<not> list_ex (\<lambda>m. Neigh_LinkIndex m = Neigh_LinkIndex neigh
                                          \<and> IP_Equal (Neigh_IP m) (IPv4 169 254 0 1)) (neighs k)
                    \<longrightarrow> snd (getNexthop k (Some p))
                          = k\<lparr>requests := requests k @ [NeighAdd_request entry],
                              neighs := neighs k @ [entry\<lparr>Neigh_Family := FAMILY_V4\<rparr>]\<rparr>)
                 \<and> (Call_NeighAdd \<in> set (failing k)
                      \<or> list_ex (\<lambda>m. Neigh_LinkIndex m = Neigh_LinkIndex neigh
                                        \<and> IP_Equal (Neigh_IP m) (IPv4 169 254 0 1)) (neighs k)
                    \<longrightarrow> snd (getNexthop k (Some p))
                          = k\<lparr>requests := requests k @ [NeighAdd_request entry]\<rparr>)))"
proof -
  let ?same = "\<lambda>n. HardwareAddr_String (Neigh_HardwareAddr n)
                       = HardwareAddr_String (Neigh_HardwareAddr neigh)"
  let ?there = "list_ex (\<lambda>m. Neigh_LinkIndex m = Neigh_LinkIndex neigh
                              \<and> IP_Equal (Neigh_IP m) (IPv4 169 254 0 1)) (neighs k)"
  have e: "entry = link_local_neigh neigh"
    using assms(3) by (simp add: link_local_neigh_def)
  have ef: "Neigh_LinkIndex entry = Neigh_LinkIndex neigh" "Neigh_IP entry = IPv4 169 254 0 1"
    using assms(3) by simp_all
  have v4: "getNexthop k (Some p) = ((0, To4 nh, 0), k)" if "To4 nh \<noteq> []"
    using that assms(1,2) getNexthop_ipv4 [of p k] by simp
  have found: "getNexthop k (Some p) = ((Neigh_LinkIndex n, To4 (Neigh_IP n), FLAG_ONLINK), k)
                 \<and> n \<in> set (neighs k) \<and> Neigh_Family n = FAMILY_V4
                 \<and> (Neigh_LinkIndex neigh = 0 \<or> Neigh_LinkIndex n = Neigh_LinkIndex neigh)"
    if "To4 nh = []" "NeighList k 0 FAMILY_V6 = Some list6"
      "find (\<lambda>n. IP_Equal (Neigh_IP n) nh) list6 = Some neigh"
      "NeighList k (Neigh_LinkIndex neigh) FAMILY_V4 = Some list4"
      "find ?same list4 = Some n"
  proof -
    have "getNexthop k (Some p) = ((Neigh_LinkIndex n, To4 (Neigh_IP n), FLAG_ONLINK), k)"
      using that assms(1,2) getNexthop_found [of p k list6 neigh list4 n] by simp
    moreover have "n \<in> set (neighs k) \<and> Neigh_Family n = FAMILY_V4 \<and> ?same n
         \<and> (Neigh_LinkIndex neigh = 0 \<or> Neigh_LinkIndex n = Neigh_LinkIndex neigh)"
      using NeighList_v4_member [OF that(4) that(5)] .
    ultimately show ?thesis by blast
  qed
  have added: "fst (getNexthop k (Some p))
                   = (Neigh_LinkIndex neigh, IPv4 169 254 0 1, FLAG_ONLINK)
                 \<and> requests (snd (getNexthop k (Some p))) = requests k @ [NeighAdd_request entry]
                 \<and> (Call_NeighAdd \<notin> set (failing k) \<and> \<not> ?there
                    \<longrightarrow> snd (getNexthop k (Some p))
                          = k\<lparr>requests := requests k @ [NeighAdd_request entry],
                              neighs := neighs k @ [entry\<lparr>Neigh_Family := FAMILY_V4\<rparr>]\<rparr>)
                 \<and> (Call_NeighAdd \<in> set (failing k) \<or> ?there
                    \<longrightarrow> snd (getNexthop k (Some p))
                          = k\<lparr>requests := requests k @ [NeighAdd_request entry]\<rparr>)"
    if "To4 nh = []" "NeighList k 0 FAMILY_V6 = Some list6"
      "find (\<lambda>n. IP_Equal (Neigh_IP n) nh) list6 = Some neigh"
      "NeighList k (Neigh_LinkIndex neigh) FAMILY_V4 = Some list4"
      "find ?same list4 = None"
  proof -
    have g: "getNexthop k (Some p)
           = ((Neigh_LinkIndex neigh, IPv4 169 254 0 1, FLAG_ONLINK), snd (NeighAdd k entry))"
      using that assms(1,2) getNexthop_not_found [of p k list6 neigh list4] e by simp
    have r: "requests (snd (getNexthop k (Some p))) = requests k @ [NeighAdd_request entry]"
      by (simp add: g NeighAdd_requests)
    have acc: "snd (getNexthop k (Some p))
                 = k\<lparr>requests := requests k @ [NeighAdd_request entry],
                     neighs := neighs k @ [entry\<lparr>Neigh_Family := FAMILY_V4\<rparr>]\<rparr>"
      if "Call_NeighAdd \<notin> set (failing k)" "\<not> ?there"
      using NeighAdd_accepted [of k entry] that
      by (simp add: g ef GetIPFamily_link_local)
    have ref: "snd (getNexthop k (Some p)) = k\<lparr>requests := requests k @ [NeighAdd_request entry]\<rparr>"
      if "Call_NeighAdd \<in> set (failing k) \<or> ?there"
      using NeighAdd_refused [of k entry] that
      by (simp add: g ef)
    from g r acc ref show ?thesis by simp
  qed
  from v4 found added show ?thesis by blast
qed

lemma NeighborIp_path_v4: "NeighborIp (toPathApi path_v4) = ''10.0.0.2''"
  by (simp add: toPathApi_def toPathAPI_def path_v4_def peer_10_0_0_2_def IP_String_def
      To4_def ubtoa_def hexDigit_def)

lemma NeighborIp_path_nh_fe80_1: "NeighborIp (toPathApi path_nh_fe80_1) = ''10.0.0.2''"
  using NeighborIp_path_v4
  by (simp add: toPathApi_def toPathAPI_def path_nh_fe80_1_def path_v4_def)

lemma nexthop_path_v4:
  "getNextHopFromPathAttributes (GetNativePathAttributes (toPathApi path_v4)) = [192, 168, 0, 2]"
  by (simp add: toPathApi_def toPathAPI_def path_v4_def GetNativePathAttributes_def
      split: option.splits)

lemma nexthop_path_nh_fe80_1:
  "getNextHopFromPathAttributes (GetNativePathAttributes (toPathApi path_nh_fe80_1)) = fe80_1"
  by (simp add: toPathApi_def toPathAPI_def path_nh_fe80_1_def path_v4_def
      GetNativePathAttributes_def split: option.splits)

lemma To4_fe80_1: "To4 fe80_1 = []"
  by (simp add: To4_def fe80_1_def isZeros_def)

lemma NeighList_kernel_v6:
  "NeighList kernel_v6 0 FAMILY_V6 = Some [neigh_v6]"
  "NeighList kernel_v6 2 FAMILY_V4 = Some []"
  by (simp_all add: NeighList_def kernel_v6_def kernel_plain_def neigh_v6_def
      FAMILY_V6_def FAMILY_V4_def FAMILY_ALL_def)

lemma NeighList_kernel_v6_v4:
  "NeighList kernel_v6_v4 0 FAMILY_V6 = Some [neigh_v6]"
  "NeighList kernel_v6_v4 2 FAMILY_V4 = Some [neigh_v4]"
  by (simp_all add: NeighList_def kernel_v6_v4_def kernel_plain_def neigh_v6_def neigh_v4_def
      FAMILY_V6_def FAMILY_V4_def FAMILY_ALL_def)

lemma find_fe80_1:
  "find (\<lambda>n. IP_Equal (Neigh_IP n) fe80_1) [neigh_v6] = Some neigh_v6"
  by (simp add: IP_Equal_def neigh_v6_def)

lemma same_mac_v4_v6:
  "HardwareAddr_String (Neigh_HardwareAddr neigh_v4)
     = HardwareAddr_String (Neigh_HardwareAddr neigh_v6)"
  by (simp add: neigh_v4_def neigh_v6_def)

lemma IP_Equal_refl: "IP_Equal ip ip"
  by (simp add: IP_Equal_def)

lemma neigh_fields:
  "Neigh_LinkIndex neigh_v6 = 2" "Neigh_LinkIndex neigh_v4 = 2"
  "Neigh_IP neigh_v4 = [10, 0, 0, 2]" "Neigh_IP neigh_v6 = fe80_1"
  by (simp_all add: neigh_v6_def neigh_v4_def)

lemma NeighList_kernel_v6_taken:
  "NeighList kernel_v6_taken 0 FAMILY_V6 = Some [neigh_v6]"
  "NeighList kernel_v6_taken 2 FAMILY_V4 = Some [neigh_169_other]"
  by (simp_all add: NeighList_def kernel_v6_taken_def kernel_plain_def neigh_v6_def
      neigh_169_other_def FAMILY_V6_def FAMILY_V4_def FAMILY_ALL_def)

lemma other_mac:
  "HardwareAddr_String (Neigh_HardwareAddr neigh_169_other)
     \<noteq> HardwareAddr_String (Neigh_HardwareAddr neigh_v6)"
  by (simp add: neigh_169_other_def neigh_v6_def mac_01_def mac_02_def hexString_def
      hexDigit_def)

lemma link_local_taken:
  "list_ex (\<lambda>m. Neigh_LinkIndex m = 2 \<and> IP_Equal (Neigh_IP m) (IPv4 169 254 0 1))
     (neighs kernel_v6_taken)"
  by (simp add: kernel_v6_taken_def neigh_169_other_def neigh_v6_def IP_Equal_def IPv4_def
      v4InV6Prefix_def fe80_1_def)

lemma link_local_free:
  "\<not> list_ex (\<lambda>m. Neigh_LinkIndex m = 2 \<and> IP_Equal (Neigh_IP m) (IPv4 169 254 0 1))
       (neighs kernel_v6)"
  by (simp add: kernel_v6_def neigh_v6_def IP_Equal_def IPv4_def v4InV6Prefix_def fe80_1_def)

lemma link_local_neigh_v6: "link_local_neigh neigh_v6 = neigh_linklocal"
  by (simp add: link_local_neigh_def neigh_linklocal_def neigh_v6_def)

theorem getNexthop_resolution_witness:
  "getNexthop kernel_plain (Some (toPathApi path_v4)) = ((0, [192, 168, 0, 2], 0), kernel_plain)
   \<and> getNexthop kernel_v6_v4 (Some (toPathApi path_nh_fe80_1))
       = ((2, [10, 0, 0, 2], FLAG_ONLINK), kernel_v6_v4)
   \<and> getNexthop kernel_v6 (Some (toPathApi path_nh_fe80_1))
       = ((2, IPv4 169 254 0 1, FLAG_ONLINK),
          kernel_v6\<lparr>requests := [NeighAdd_request neigh_linklocal],
                    neighs := [neigh_v6, neigh_linklocal\<lparr>Neigh_Family := FAMILY_V4\<rparr>]\<rparr>)
   \<and> getNexthop kernel_v6_taken (Some (toPathApi path_nh_fe80_1))
       = ((2, IPv4 169 254 0 1, FLAG_ONLINK),
          kernel_v6_taken\<lparr>requests := [NeighAdd_request neigh_linklocal]\<rparr>)"
proof -
  have n4: "NeighborIp (toPathApi path_v4) \<noteq> ''<nil>''"
    by (simp add: NeighborIp_path_v4)
  have n6: "NeighborIp (toPathApi path_nh_fe80_1) \<noteq> ''<nil>''"
    by (simp add: NeighborIp_path_nh_fe80_1)
  have t4: "To4 [192, 168, 0, 2] = [192, 168, 0, 2 :: byte]"
    by (simp add: To4_def)
  have a: "getNexthop kernel_plain (Some (toPathApi path_v4))
             = ((0, [192, 168, 0, 2], 0), kernel_plain)"
    using getNexthop_resolution [OF n4 nexthop_path_v4 [symmetric] refl, of kernel_plain] t4
    by simp
  have l2: "Neigh_LinkIndex neigh_v6 = 2" "Neigh_LinkIndex neigh_v4 = 2"
    "Neigh_IP neigh_v4 = [10, 0, 0, 2]"
    by (simp_all add: neigh_v6_def neigh_v4_def)
  have f4: "find (\<lambda>n. HardwareAddr_String (Neigh_HardwareAddr n)
                        = HardwareAddr_String (Neigh_HardwareAddr neigh_v6)) [neigh_v4]
              = Some neigh_v4"
    by (simp add: same_mac_v4_v6)
  have t2: "To4 [10, 0, 0, 2] = [10, 0, 0, 2 :: byte]"
    by (simp add: To4_def)
  have b: "getNexthop kernel_v6_v4 (Some (toPathApi path_nh_fe80_1))
             = ((2, [10, 0, 0, 2], FLAG_ONLINK), kernel_v6_v4)"
    using getNexthop_resolution [OF n6 nexthop_path_nh_fe80_1 [symmetric] refl,
        where k = kernel_v6_v4 and ?list6.0 = "[neigh_v6]" and neigh = neigh_v6
          and ?list4.0 = "[neigh_v4]" and n = neigh_v4]
      To4_fe80_1 NeighList_kernel_v6_v4 find_fe80_1 f4 l2 t2
    by simp
  have e: "neigh_linklocal = \<lparr>Neigh_LinkIndex = Neigh_LinkIndex neigh_v6, Neigh_Family = 0,
                    Neigh_State = NUD_PERMANENT, Neigh_IP = IPv4 169 254 0 1,
                    Neigh_HardwareAddr = Neigh_HardwareAddr neigh_v6\<rparr>"
    by (simp add: neigh_linklocal_def neigh_v6_def)
  have r0: "requests kernel_v6 = []" "failing kernel_v6 = []" "neighs kernel_v6 = [neigh_v6]"
    "requests kernel_v6_taken = []"
    by (simp_all add: kernel_v6_def kernel_v6_taken_def kernel_plain_def)
  have f0: "find (\<lambda>n. HardwareAddr_String (Neigh_HardwareAddr n)
                        = HardwareAddr_String (Neigh_HardwareAddr neigh_v6)) [] = None"
    by simp
  have c: "fst (getNexthop kernel_v6 (Some (toPathApi path_nh_fe80_1)))
             = (2, IPv4 169 254 0 1, FLAG_ONLINK)
         \<and> snd (getNexthop kernel_v6 (Some (toPathApi path_nh_fe80_1)))
             = kernel_v6\<lparr>requests := [NeighAdd_request neigh_linklocal],
                         neighs := [neigh_v6, neigh_linklocal\<lparr>Neigh_Family := FAMILY_V4\<rparr>]\<rparr>"
    using getNexthop_resolution [OF n6 nexthop_path_nh_fe80_1 [symmetric] e,
        where k = kernel_v6 and ?list6.0 = "[neigh_v6]" and ?list4.0 = "[]" and n = neigh_v4]
      To4_fe80_1 NeighList_kernel_v6 find_fe80_1 f0 l2(1) link_local_free r0
    by simp
  have f1: "find (\<lambda>n. HardwareAddr_String (Neigh_HardwareAddr n)
                        = HardwareAddr_String (Neigh_HardwareAddr neigh_v6)) [neigh_169_other]
              = None"
    by (simp add: other_mac)
  have d: "fst (getNexthop kernel_v6_taken (Some (toPathApi path_nh_fe80_1)))
             = (2, IPv4 169 254 0 1, FLAG_ONLINK)
         \<and> snd (getNexthop kernel_v6_taken (Some (toPathApi path_nh_fe80_1)))
             = kernel_v6_taken\<lparr>requests := [NeighAdd_request neigh_linklocal]\<rparr>"
    using getNexthop_resolution [OF n6 nexthop_path_nh_fe80_1 [symmetric] e,
        where k = kernel_v6_taken and ?list6.0 = "[neigh_v6]" and ?list4.0 = "[neigh_169_other]"
          and n = neigh_v4]
      To4_fe80_1 NeighList_kernel_v6_taken find_fe80_1 f1 l2(1) link_local_taken r0
    by simp
  from a b c d show ?thesis by (simp add: prod_eq_iff)
qed

text \<open>
  Claim C3 as stated fails on two inputs. First, the nexthop fe80::1 is an IPv6 neighbour
  on link 2 whose hardware address is also that of the IPv4 neighbour 10.0.0.2 on link 2:
  the result is that link and that IPv4 address, but the flags are FLAG_ONLINK, which is
  4, and not 0. Second, no IPv4 neighbour has the hardware address of fe80::1, and link 2
  has a neighbour 169.254.0.1 with another hardware address: the result is (2,
  169.254.0.1, FLAG_ONLINK), the request to add the neighbour is made, and the neighbour
  table is as it was, so no neighbour 169.254.0.1 with the hardware address of fe80::1 is
  installed.
\<close>

theorem getNexthop_counterexample:
  "To4 fe80_1 = []
   \<and> getNextHopFromPathAttributes (GetNativePathAttributes (toPathApi path_nh_fe80_1)) = fe80_1
   \<and> neighs kernel_v6_v4 = [neigh_v6, neigh_v4]
   \<and> Neigh_IP neigh_v6 = fe80_1 \<and> Neigh_Family neigh_v6 = FAMILY_V6
   \<and> Neigh_Family neigh_v4 = FAMILY_V4
   \<and> Neigh_HardwareAddr neigh_v4 = Neigh_HardwareAddr neigh_v6
   \<and> fst (getNexthop kernel_v6_v4 (Some (toPathApi path_nh_fe80_1))) = (2, [10, 0, 0, 2], 4)
   \<and> neighs kernel_v6_taken = [neigh_v6, neigh_169_other]
   \<and> failing kernel_v6_taken = []
   \<and> Neigh_Family neigh_169_other = FAMILY_V4
   \<and> Neigh_IP neigh_169_other = [169, 254, 0, 1]
   \<and> Neigh_HardwareAddr neigh_169_other = mac_02
   \<and> Neigh_HardwareAddr neigh_v6 = mac_01
   \<and> HardwareAddr_String mac_02 \<noteq> HardwareAddr_String mac_01
   \<and> fst (getNexthop kernel_v6_taken (Some (toPathApi path_nh_fe80_1)))
       = (2, IPv4 169 254 0 1, 4)
   \<and> requests (snd (getNexthop kernel_v6_taken (Some (toPathApi path_nh_fe80_1))))
       = [NeighAdd_request neigh_linklocal]
   \<and> neighs (snd (getNexthop kernel_v6_taken (Some (toPathApi path_nh_fe80_1))))
       = [neigh_v6, neigh_169_other]"
proof -
  have "getNexthop kernel_v6_v4 (Some (toPathApi path_nh_fe80_1))
          = ((Neigh_LinkIndex neigh_v4, To4 (Neigh_IP neigh_v4), FLAG_ONLINK), kernel_v6_v4)"
    by (rule getNexthop_found [where ?list6.0 = "[neigh_v6]" and neigh = neigh_v6
          and ?list4.0 = "[neigh_v4]"])
       (simp_all add: NeighborIp_path_nh_fe80_1 nexthop_path_nh_fe80_1 To4_fe80_1
          NeighList_kernel_v6_v4 IP_Equal_refl same_mac_v4_v6 neigh_fields)
  then have a: "fst (getNexthop kernel_v6_v4 (Some (toPathApi path_nh_fe80_1)))
               = (2, [10, 0, 0, 2], 4)"
    by (simp add: neigh_v4_def To4_def FLAG_ONLINK_def)
  have g: "getNexthop kernel_v6_taken (Some (toPathApi path_nh_fe80_1))
          = ((Neigh_LinkIndex neigh_v6, IPv4 169 254 0 1, FLAG_ONLINK),
             snd (NeighAdd kernel_v6_taken (link_local_neigh neigh_v6)))"
    by (rule getNexthop_not_found [where ?list6.0 = "[neigh_v6]"
          and ?list4.0 = "[neigh_169_other]"])
       (simp_all add: NeighborIp_path_nh_fe80_1 nexthop_path_nh_fe80_1 To4_fe80_1
          NeighList_kernel_v6_taken IP_Equal_refl other_mac neigh_fields)
  have r: "NeighAdd kernel_v6_taken neigh_linklocal
             = (True, kernel_v6_taken\<lparr>requests := requests kernel_v6_taken
                  @ [NeighAdd_request neigh_linklocal]\<rparr>)"
    by (rule NeighAdd_refused) (simp add: link_local_taken neigh_linklocal_def)
  have b: "fst (getNexthop kernel_v6_taken (Some (toPathApi path_nh_fe80_1)))
             = (2, IPv4 169 254 0 1, 4)
     \<and> requests (snd (getNexthop kernel_v6_taken (Some (toPathApi path_nh_fe80_1))))
         = [NeighAdd_request neigh_linklocal]
     \<and> neighs (snd (getNexthop kernel_v6_taken (Some (toPathApi path_nh_fe80_1))))
         = [neigh_v6, neigh_169_other]"
  proof -
    have k0: "requests kernel_v6_taken = []" "neighs kernel_v6_taken = [neigh_v6, neigh_169_other]"
      by (simp_all add: kernel_v6_taken_def kernel_plain_def)
    show ?thesis
      by (simp add: g link_local_neigh_v6 r neigh_fields FLAG_ONLINK_def k0)
  qed
  have m: "HardwareAddr_String mac_02 \<noteq> HardwareAddr_String mac_01"
    using other_mac by (simp add: neigh_169_other_def neigh_v6_def)
  from a b m show ?thesis
    by (simp add: To4_fe80_1 nexthop_path_nh_fe80_1 kernel_v6_v4_def kernel_v6_taken_def
        kernel_plain_def neigh_v6_def neigh_v4_def neigh_169_other_def FAMILY_V6_def
        FAMILY_V4_def)
qed

section \<open>Route programming\<close>

lemma getNexthop_requests:
  "\<exists>ns. requests (snd (getNexthop k path)) = requests k @ map NeighAdd_request ns"
proof -
  have "requests (snd (getNexthop k path)) = requests k
        \<or> (\<exists>n. requests (snd (getNexthop k path)) = requests k @ [NeighAdd_request n])"
    by (simp add: getNexthop_def Let_def NeighAdd_requests split: option.splits)
  then show ?thesis
  proof
    assume "requests (snd (getNexthop k path)) = requests k"
    then have "requests (snd (getNexthop k path)) = requests k @ map NeighAdd_request []"
      by simp
    then show ?thesis by blast
  next
    assume "\<exists>n. requests (snd (getNexthop k path)) = requests k @ [NeighAdd_request n]"
    then obtain n where "requests (snd (getNexthop k path)) = requests k @ map NeighAdd_request [n]"
      by auto
    then show ?thesis by blast
  qed
qed

lemma multipath_nexthops_requests:
  "\<exists>ns. requests (snd (multipath_nexthops k paths)) = requests k @ map NeighAdd_request ns"
proof (induction paths arbitrary: k)
  case Nil
  have "requests (snd (multipath_nexthops k [])) = requests k @ map NeighAdd_request []"
    by simp
  then show ?case by blast
next
  case (Cons path paths)
  show ?case
  proof (cases "NeighborIp (toPathApi path) = ''<nil>''")
    case True
    then show ?thesis using Cons.IH [of k] by simp
  next
    case False
    obtain r k1 where g: "getNexthop k (Some (toPathApi path)) = (r, k1)"
      by (cases "getNexthop k (Some (toPathApi path))")
    obtain link gw flags where r: "r = (link, gw, flags)"
      by (cases r)
    obtain mp k2 where m: "multipath_nexthops k1 paths = (mp, k2)"
      by (cases "multipath_nexthops k1 paths")
    from getNexthop_requests [of k "Some (toPathApi path)"] g
    obtain ns1 where n1: "requests k1 = requests k @ map NeighAdd_request ns1"
      by auto
    from Cons.IH [of k1] m
    obtain ns2 where n2: "requests k2 = requests k1 @ map NeighAdd_request ns2"
      by auto
    have "snd (multipath_nexthops k (path # paths)) = k2"
      using False g r m by simp
    then have "requests (snd (multipath_nexthops k (path # paths)))
                 = requests k @ map NeighAdd_request (ns1 @ ns2)"
      using n1 n2 by simp
    then show ?thesis by blast
  qed
qed

lemma multipath_nexthops_filter:
  "multipath_nexthops k paths
     = multipath_nexthops k (filter (\<lambda>q. NeighborIp (toPathApi q) \<noteq> ''<nil>'') paths)"
proof (induction paths arbitrary: k)
  case Nil
  then show ?case by simp
next
  case (Cons path paths)
  show ?case
  proof (cases "NeighborIp (toPathApi path) = ''<nil>''")
    case True
    then show ?thesis using Cons.IH [of k] by simp
  next
    case False
    obtain r k1 where g: "getNexthop k (Some (toPathApi path)) = (r, k1)"
      by (cases "getNexthop k (Some (toPathApi path))")
    obtain link gw flags where r: "r = (link, gw, flags)"
      by (cases r)
    show ?thesis
      using False g r Cons.IH [of k1] by simp
  qed
qed

lemma multipath_nexthops_length:
  "length (fst (multipath_nexthops k paths))
     = length (filter (\<lambda>q. NeighborIp (toPathApi q) \<noteq> ''<nil>'') paths)"
proof (induction paths arbitrary: k)
  case Nil
  then show ?case by simp
next
  case (Cons path paths)
  show ?case
  proof (cases "NeighborIp (toPathApi path) = ''<nil>''")
    case True
    then show ?thesis using Cons.IH [of k] by simp
  next
    case False
    obtain r k1 where g: "getNexthop k (Some (toPathApi path)) = (r, k1)"
      by (cases "getNexthop k (Some (toPathApi path))")
    obtain link gw flags where r: "r = (link, gw, flags)"
      by (cases r)
    obtain mp k2 where m: "multipath_nexthops k1 paths = (mp, k2)"
      by (cases "multipath_nexthops k1 paths")
    show ?thesis
      using False g r m Cons.IH [of k1] by simp
  qed
qed

lemma multipath_nexthops_entries:
  "\<exists>ks rs. length ks = Suc (length paths) \<and> length rs = length paths \<and> ks ! 0 = k
     \<and> ks ! length paths = snd (multipath_nexthops k paths)
     \<and> (\<forall>i<length paths.
           getNexthop (ks ! i) (Some (toPathApi (paths ! i))) = (rs ! i, ks ! Suc i))
     \<and> fst (multipath_nexthops k paths)
         = map (\<lambda>(q, link, gw, flags).
                  \<lparr>NexthopInfo_LinkIndex = link, NexthopInfo_Gw = gw, NexthopInfo_Flags = flags\<rparr>)
             (filter (\<lambda>(q, r). NeighborIp (toPathApi q) \<noteq> ''<nil>'') (zip paths rs))"
proof (induction paths arbitrary: k)
  case Nil
  show ?case
    by (rule exI [of _ "[k]"], rule exI [of _ "[]"]) simp
next
  case (Cons path paths)
  obtain r k1 where g: "getNexthop k (Some (toPathApi path)) = (r, k1)"
    by (cases "getNexthop k (Some (toPathApi path))")
  obtain link gw flags where r: "r = (link, gw, flags)"
    by (cases r)
  from Cons.IH [of k1] obtain ks rs where
    len: "length ks = Suc (length paths)" "length rs = length paths"
    and first: "ks ! 0 = k1"
    and last: "ks ! length paths = snd (multipath_nexthops k1 paths)"
    and steps: "\<forall>i<length paths.
           getNexthop (ks ! i) (Some (toPathApi (paths ! i))) = (rs ! i, ks ! Suc i)"
    and entries: "fst (multipath_nexthops k1 paths)
         = map (\<lambda>(q, link, gw, flags).
                  \<lparr>NexthopInfo_LinkIndex = link, NexthopInfo_Gw = gw, NexthopInfo_Flags = flags\<rparr>)
             (filter (\<lambda>(q, r). NeighborIp (toPathApi q) \<noteq> ''<nil>'') (zip paths rs))"
    by blast
  have step: "getNexthop ((k # ks) ! i) (Some (toPathApi ((path # paths) ! i)))
                = ((r # rs) ! i, (k # ks) ! Suc i)" if "i < length (path # paths)" for i
  proof (cases i)
    case 0
    then show ?thesis using g first by simp
  next
    case (Suc j)
    then show ?thesis using that steps by simp
  qed
  have res: "snd (multipath_nexthops k (path # paths)) = snd (multipath_nexthops k1 paths)
     \<and> fst (multipath_nexthops k (path # paths))
         = map (\<lambda>(q, link, gw, flags).
                  \<lparr>NexthopInfo_LinkIndex = link, NexthopInfo_Gw = gw, NexthopInfo_Flags = flags\<rparr>)
             (filter (\<lambda>(q, r). NeighborIp (toPathApi q) \<noteq> ''<nil>'')
                (zip (path # paths) (r # rs)))"
  proof (cases "NeighborIp (toPathApi path) = ''<nil>''")
    case True
    from getNexthop_nil_neighbor [OF True, of k] g have "k1 = k" by simp
    then show ?thesis using True entries by simp
  next
    case False
    obtain mp k2 where m: "multipath_nexthops k1 paths = (mp, k2)"
      by (cases "multipath_nexthops k1 paths")
    show ?thesis using False g r m entries by simp
  qed
  have "length (k # ks) = Suc (length (path # paths)) \<and> length (r # rs) = length (path # paths)
     \<and> (k # ks) ! 0 = k
     \<and> (k # ks) ! length (path # paths) = snd (multipath_nexthops k (path # paths))
     \<and> (\<forall>i<length (path # paths).
           getNexthop ((k # ks) ! i) (Some (toPathApi ((path # paths) ! i)))
             = ((r # rs) ! i, (k # ks) ! Suc i))
     \<and> fst (multipath_nexthops k (path # paths))
         = map (\<lambda>(q, link, gw, flags).
                  \<lparr>NexthopInfo_LinkIndex = link, NexthopInfo_Gw = gw, NexthopInfo_Flags = flags\<rparr>)
             (filter (\<lambda>(q, r). NeighborIp (toPathApi q) \<noteq> ''<nil>'')
                (zip (path # paths) (r # rs)))"
    using len last step res by simp
  then show ?case by blast
qed

lemma multipath_nexthops_all_nil:
  "list_all (\<lambda>q. NeighborIp (toPathApi q) = ''<nil>'') paths
     \<Longrightarrow> multipath_nexthops k paths = ([], k)"
  by (induction paths) simp_all

lemma modRib_single:
  assumes "NeighborIp (toPathApi p) \<noteq> ''<nil>''"
    and "getNexthop k (Some (toPathApi p)) = ((link, gw, flags), k1)"
  shows "modRib L d k [p]
           = del_or_replace k1 p
               \<lparr>Route_LinkIndex = link, Route_Dst = ParseIPNet L (Nlri p),
                Route_Src = ParseIP L (routerId d), Route_Gw = gw, Route_MultiPath = [],
                Route_Flags = flags\<rparr>"
  using assms by (simp add: modRib_def Let_def)

lemma modRib_multi:
  assumes "others \<noteq> []"
    and "multipath_nexthops k (p # others) = (mp, k2)"
  shows "modRib L d k (p # others)
           = (if mp = [] then (False, k2)
              else del_or_replace k2 p
                \<lparr>Route_LinkIndex = 0, Route_Dst = ParseIPNet L (Nlri p),
                 Route_Src = ParseIP L (routerId d), Route_Gw = [], Route_MultiPath = mp,
                 Route_Flags = 0\<rparr>)"
  using assms by (simp add: modRib_def Let_def)

lemma del_or_replace_kernel:
  "snd (del_or_replace k p r)
     = k\<lparr>requests := requests k
           @ [if IsWithdraw p then RouteDel_request r else RouteReplace_request r]\<rparr>"
  by (simp add: del_or_replace_def RouteDel_def RouteReplace_def)

lemma multipath_nexthops_skip:
  "NeighborIp (toPathApi p) = ''<nil>''
     \<Longrightarrow> multipath_nexthops k (p # others) = multipath_nexthops k others"
  by simp

lemma modRib_all_self_originated:
  assumes all: "list_all (\<lambda>q. NeighborIp (toPathApi q) = ''<nil>'') paths"
  shows "modRib L d k paths = (False, k)"
proof (cases paths)
  case Nil
  then show ?thesis by (simp add: modRib_def)
next
  case (Cons q others)
  show ?thesis
  proof (cases "others = []")
    case True
    with Cons all show ?thesis by (simp add: modRib_def Let_def)
  next
    case False
    have "multipath_nexthops k (q # others) = ([], k)"
      using multipath_nexthops_all_nil [OF all] Cons by simp
    from modRib_multi [OF False this] Cons show ?thesis by simp
  qed
qed

lemma multipath_nexthops_empty:
  assumes "multipath_nexthops k paths = ([], k2)"
  shows "k2 = k"
proof -
  from multipath_nexthops_length [of k paths] assms
  have "filter (\<lambda>q. NeighborIp (toPathApi q) \<noteq> ''<nil>'') paths = []"
    by simp
  then have "\<forall>q \<in> set paths. \<not> NeighborIp (toPathApi q) \<noteq> ''<nil>''"
    by (simp only: filter_empty_conv)
  then have "list_all (\<lambda>q. NeighborIp (toPathApi q) = ''<nil>'') paths"
    by (simp add: list_all_iff)
  from multipath_nexthops_all_nil [OF this, of k] assms show ?thesis by simp
qed

lemma NeighborIp_path_self: "NeighborIp (toPathApi path_self) = ''<nil>''"
  by (simp add: toPathApi_def toPathAPI_def path_self_def IP_String_def)

lemma getNexthop_plain_path_v4:
  "getNexthop kernel_plain (Some (toPathApi path_v4)) = ((0, [192, 168, 0, 2], 0), kernel_plain)"
  using getNexthop_ipv4 [of "toPathApi path_v4" kernel_plain]
  by (simp add: NeighborIp_path_v4 nexthop_path_v4 To4_def)

text \<open>
  Claim C4, as the code has it. A batch is programmed as one route, for the prefix of
  its first path \<open>p\<close> and with the router ID as source address; the request is a route
  deletion when \<open>p\<close> is a withdrawal and a route replacement otherwise, and before it
  the kernel gets only the neighbour requests of nexthop resolution. For a batch of the
  one path \<open>p\<close>, whose NeighborIp is not \<^verbatim>\<open><nil>\<close>, gateway, link and flags of the
  route are the ones that \<^verbatim>\<open>getNexthop\<close> gives. For a batch of several paths the
  nexthops of all of them are resolved, in the order of the batch, each in the kernel
  state \<open>ks ! i\<close> that the resolutions before it have left, with the result \<open>rs ! i\<close>
  (for a path whose NeighborIp is \<^verbatim>\<open><nil>\<close> that result is no nexthop, and the kernel
  is not touched). The route is a multipath route whose nexthop entries are, in that
  order, those of the paths whose NeighborIp is not \<^verbatim>\<open><nil>\<close>: each entry has the link,
  the gateway and the flags of the resolution of its path, whatever they are. Without
  such a path, no request is made. An empty batch does nothing.
\<close>

theorem modRib_programs_one_route:
  assumes "route = \<lparr>Route_LinkIndex = 0, Route_Dst = ParseIPNet L (Nlri p),
                    Route_Src = ParseIP L (routerId d), Route_Gw = [], Route_MultiPath = [],
                    Route_Flags = 0\<rparr>"
  shows "(NeighborIp (toPathApi p) \<noteq> ''<nil>''
            \<and> getNexthop k (Some (toPathApi p)) = ((link, gw, flags), k1)
          \<longrightarrow> snd (modRib L d k [p])
                = k1\<lparr>requests := requests k1
                    @ [if IsWithdraw p
                       then RouteDel_request
                              (route\<lparr>Route_Gw := gw, Route_LinkIndex := link, Route_Flags := flags\<rparr>)
                       else RouteReplace_request
                              (route\<lparr>Route_Gw := gw, Route_LinkIndex := link, Route_Flags := flags\<rparr>)]\<rparr>
              \<and> (\<exists>ns. requests k1 = requests k @ map NeighAdd_request ns))
    \<and> (others \<noteq> [] \<and> multipath_nexthops k (p # others) = (mp, k2)
          \<longrightarrow> length mp
                = length (filter (\<lambda>q. NeighborIp (toPathApi q) \<noteq> ''<nil>'') (p # others))
              \<and> (\<exists>ks rs. length ks = Suc (length (p # others))
                    \<and> length rs = length (p # others) \<and> ks ! 0 = k
                    \<and> ks ! length (p # others) = k2
                    \<and> (\<forall>i<length (p # others).
                          getNexthop (ks ! i) (Some (toPathApi ((p # others) ! i)))
                            = (rs ! i, ks ! Suc i))
                    \<and> mp = map (\<lambda>(q, link, gw, flags).
                                  \<lparr>NexthopInfo_LinkIndex = link, NexthopInfo_Gw = gw,
                                   NexthopInfo_Flags = flags\<rparr>)
                             (filter (\<lambda>(q, r). NeighborIp (toPathApi q) \<noteq> ''<nil>'')
                                (zip (p # others) rs)))
              \<and> (\<exists>ns. requests k2 = requests k @ map NeighAdd_request ns)
              \<and> (mp = [] \<longrightarrow> modRib L d k (p # others) = (False, k))
              \<and> (mp \<noteq> [] \<longrightarrow>
                    snd (modRib L d k (p # others))
                      = k2\<lparr>requests := requests k2
                          @ [if IsWithdraw p
                             then RouteDel_request (route\<lparr>Route_MultiPath := mp\<rparr>)
                             else RouteReplace_request (route\<lparr>Route_MultiPath := mp\<rparr>)]\<rparr>))
    \<and> modRib L d k [] = (False, k)"
proof -
  have single: "snd (modRib L d k [p])
                = k1\<lparr>requests := requests k1
                    @ [if IsWithdraw p
                       then RouteDel_request
                              (route\<lparr>Route_Gw := gw, Route_LinkIndex := link, Route_Flags := flags\<rparr>)
                       else RouteReplace_request
                              (route\<lparr>Route_Gw := gw, Route_LinkIndex := link, Route_Flags := flags\<rparr>)]\<rparr>
              \<and> (\<exists>ns. requests k1 = requests k @ map NeighAdd_request ns)"
    if n: "NeighborIp (toPathApi p) \<noteq> ''<nil>''"
      and g: "getNexthop k (Some (toPathApi p)) = ((link, gw, flags), k1)"
  proof -
    have "snd (modRib L d k [p])
            = snd (del_or_replace k1 p
               \<lparr>Route_LinkIndex = link, Route_Dst = ParseIPNet L (Nlri p),
                Route_Src = ParseIP L (routerId d), Route_Gw = gw, Route_MultiPath = [],
                Route_Flags = flags\<rparr>)"
      using modRib_single [OF n g] by simp
    then have "snd (modRib L d k [p])
                = k1\<lparr>requests := requests k1
                    @ [if IsWithdraw p
                       then RouteDel_request
                              (route\<lparr>Route_Gw := gw, Route_LinkIndex := link, Route_Flags := flags\<rparr>)
                       else RouteReplace_request
                              (route\<lparr>Route_Gw := gw, Route_LinkIndex := link, Route_Flags := flags\<rparr>)]\<rparr>"
      by (simp add: del_or_replace_kernel assms)
    moreover have "\<exists>ns. requests k1 = requests k @ map NeighAdd_request ns"
      using getNexthop_requests [of k "Some (toPathApi p)"] g by simp
    ultimately show ?thesis by blast
  qed
  have multi: "length mp
                = length (filter (\<lambda>q. NeighborIp (toPathApi q) \<noteq> ''<nil>'') (p # others))
              \<and> (\<exists>ks rs. length ks = Suc (length (p # others))
                    \<and> length rs = length (p # others) \<and> ks ! 0 = k
                    \<and> ks ! length (p # others) = k2
                    \<and> (\<forall>i<length (p # others).
                          getNexthop (ks ! i) (Some (toPathApi ((p # others) ! i)))
                            = (rs ! i, ks ! Suc i))
                    \<and> mp = map (\<lambda>(q, link, gw, flags).
                                  \<lparr>NexthopInfo_LinkIndex = link, NexthopInfo_Gw = gw,
                                   NexthopInfo_Flags = flags\<rparr>)
                             (filter (\<lambda>(q, r). NeighborIp (toPathApi q) \<noteq> ''<nil>'')
                                (zip (p # others) rs)))
              \<and> (\<exists>ns. requests k2 = requests k @ map NeighAdd_request ns)
              \<and> (mp = [] \<longrightarrow> modRib L d k (p # others) = (False, k))
              \<and> (mp \<noteq> [] \<longrightarrow>
                    snd (modRib L d k (p # others))
                      = k2\<lparr>requests := requests k2
                          @ [if IsWithdraw p
                             then RouteDel_request (route\<lparr>Route_MultiPath := mp\<rparr>)
                             else RouteReplace_request (route\<lparr>Route_MultiPath := mp\<rparr>)]\<rparr>)"
    if o: "others \<noteq> []" and m: "multipath_nexthops k (p # others) = (mp, k2)"
  proof -
    have len: "length mp
                = length (filter (\<lambda>q. NeighborIp (toPathApi q) \<noteq> ''<nil>'') (p # others))"
      using multipath_nexthops_length [of k "p # others"] m by simp
    have req: "\<exists>ns. requests k2 = requests k @ map NeighAdd_request ns"
      using multipath_nexthops_requests [of k "p # others"] m by simp
    have ent: "\<exists>ks rs. length ks = Suc (length (p # others))
                    \<and> length rs = length (p # others) \<and> ks ! 0 = k
                    \<and> ks ! length (p # others) = k2
                    \<and> (\<forall>i<length (p # others).
                          getNexthop (ks ! i) (Some (toPathApi ((p # others) ! i)))
                            = (rs ! i, ks ! Suc i))
                    \<and> mp = map (\<lambda>(q, link, gw, flags).
                                  \<lparr>NexthopInfo_LinkIndex = link, NexthopInfo_Gw = gw,
                                   NexthopInfo_Flags = flags\<rparr>)
                             (filter (\<lambda>(q, r). NeighborIp (toPathApi q) \<noteq> ''<nil>'')
                                (zip (p # others) rs))"
      using multipath_nexthops_entries [of "p # others" k] unfolding m fst_conv snd_conv .
    have none: "modRib L d k (p # others) = (False, k)" if e: "mp = []"
    proof -
      from len e have "filter (\<lambda>q. NeighborIp (toPathApi q) \<noteq> ''<nil>'') (p # others) = []"
        by simp
      then have "\<forall>q \<in> set (p # others). \<not> NeighborIp (toPathApi q) \<noteq> ''<nil>''"
        by (simp only: filter_empty_conv)
      then have "list_all (\<lambda>q. NeighborIp (toPathApi q) = ''<nil>'') (p # others)"
        by (simp add: list_all_iff)
      from multipath_nexthops_all_nil [OF this, of k] m have "k2 = k" by simp
      with modRib_multi [OF o m, of L d] e show ?thesis by simp
    qed
    have some: "snd (modRib L d k (p # others))
                      = k2\<lparr>requests := requests k2
                          @ [if IsWithdraw p
                             then RouteDel_request (route\<lparr>Route_MultiPath := mp\<rparr>)
                             else RouteReplace_request (route\<lparr>Route_MultiPath := mp\<rparr>)]\<rparr>"
      if ne: "mp \<noteq> []"
      using modRib_multi [OF o m, of L d] ne
      by (simp add: del_or_replace_kernel assms)
    from len ent req none some show ?thesis by blast
  qed
  have empty: "modRib L d k [] = (False, k)"
    by (simp add: modRib_def)
  from single multi empty show ?thesis by blast
qed

lemma example_parsers_fields:
  "ParseIPNet example_parsers ''10.0.0.0/24''
     = Some \<lparr>IPNet_IP = IPv4 10 0 0 0, IPNet_Mask = [255, 255, 255, 0]\<rparr>"
  "ParseIP example_parsers ''10.0.0.1'' = IPv4 10 0 0 1"
  "ParseAddr example_parsers ''10.0.0.1/32'' = Some addr_router_id"
  by (simp_all add: example_parsers_def addr_router_id_def)

lemma dataplane_ready_routerId: "routerId dataplane_ready = ''10.0.0.1''"
  by (simp add: dataplane_ready_def)

lemma path_fields:
  "Nlri path_v4 = ''10.0.0.0/24''" "IsWithdraw path_v4 = False"
  "Nlri path_withdraw = ''10.0.0.0/24''" "IsWithdraw path_withdraw = True"
  "Nlri path_other_withdraw = ''10.1.0.0/24''" "IsWithdraw path_other_withdraw = True"
  by (simp_all add: path_v4_def path_withdraw_def path_other_withdraw_def)

lemma toPathApi_same_source:
  "Source q = Source p \<Longrightarrow> NeighborIp (toPathApi q) = NeighborIp (toPathApi p)"
  by (simp add: toPathApi_def toPathAPI_def Let_def split: option.splits)

lemma NeighborIp_examples:
  "NeighborIp (toPathApi path_withdraw) = ''10.0.0.2''"
  "NeighborIp (toPathApi path_other_withdraw) = ''10.0.0.2''"
  "NeighborIp (toPathApi path_nh_fe80_9) = ''10.0.0.2''"
  using toPathApi_same_source [of path_withdraw path_v4]
    toPathApi_same_source [of path_other_withdraw path_v4]
    toPathApi_same_source [of path_nh_fe80_9 path_v4]
  by (simp_all add: NeighborIp_path_v4 path_withdraw_def path_other_withdraw_def
      path_nh_fe80_9_def)

lemma nexthop_examples:
  "getNextHopFromPathAttributes (GetNativePathAttributes (toPathApi path_withdraw))
     = [192, 168, 0, 2]"
  "getNextHopFromPathAttributes (GetNativePathAttributes (toPathApi path_other_withdraw))
     = [192, 168, 0, 2]"
  by (simp_all add: toPathApi_def toPathAPI_def Let_def GetNativePathAttributes_def
      path_withdraw_def path_other_withdraw_def path_v4_def split: option.splits)

lemma getNexthop_plain_withdraws:
  "getNexthop kernel_plain (Some (toPathApi path_withdraw))
     = ((0, [192, 168, 0, 2], 0), kernel_plain)"
  "getNexthop kernel_plain (Some (toPathApi path_other_withdraw))
     = ((0, [192, 168, 0, 2], 0), kernel_plain)"
  using getNexthop_ipv4 [of "toPathApi path_withdraw" kernel_plain]
    getNexthop_ipv4 [of "toPathApi path_other_withdraw" kernel_plain]
  by (simp_all add: NeighborIp_examples nexthop_examples To4_def)

lemma getNexthop_plain_fe80_9:
  "getNexthop kernel_plain (Some (toPathApi path_nh_fe80_9)) = ((0, [], 0), kernel_plain)"
proof -
  have nh: "getNextHopFromPathAttributes (GetNativePathAttributes (toPathApi path_nh_fe80_9))
              = fe80_9"
    by (simp add: toPathApi_def toPathAPI_def path_nh_fe80_9_def path_v4_def
        GetNativePathAttributes_def split: option.splits)
  have t: "To4 fe80_9 = []"
    by (simp add: To4_def fe80_9_def isZeros_def)
  have l: "NeighList kernel_plain 0 FAMILY_V6 = Some []"
    by (simp add: NeighList_def kernel_plain_def)
  show ?thesis
    by (simp add: getNexthop_def Let_def NeighborIp_examples nh t l)
qed

lemma getNexthop_v6_v4_examples:
  "getNexthop kernel_v6_v4 (Some (toPathApi path_v4)) = ((0, [192, 168, 0, 2], 0), kernel_v6_v4)"
  "getNexthop kernel_v6_v4 (Some (toPathApi path_nh_fe80_1))
     = ((2, [10, 0, 0, 2], FLAG_ONLINK), kernel_v6_v4)"
proof -
  show "getNexthop kernel_v6_v4 (Some (toPathApi path_v4))
          = ((0, [192, 168, 0, 2], 0), kernel_v6_v4)"
    using getNexthop_ipv4 [of "toPathApi path_v4" kernel_v6_v4]
    by (simp add: NeighborIp_path_v4 nexthop_path_v4 To4_def)
  have "getNexthop kernel_v6_v4 (Some (toPathApi path_nh_fe80_1))
          = ((Neigh_LinkIndex neigh_v4, To4 (Neigh_IP neigh_v4), FLAG_ONLINK), kernel_v6_v4)"
    by (rule getNexthop_found [where ?list6.0 = "[neigh_v6]" and neigh = neigh_v6
          and ?list4.0 = "[neigh_v4]"])
       (simp_all add: NeighborIp_path_nh_fe80_1 nexthop_path_nh_fe80_1 To4_fe80_1
          NeighList_kernel_v6_v4 IP_Equal_refl same_mac_v4_v6 neigh_fields)
  then show "getNexthop kernel_v6_v4 (Some (toPathApi path_nh_fe80_1))
          = ((2, [10, 0, 0, 2], FLAG_ONLINK), kernel_v6_v4)"
    by (simp add: neigh_fields To4_def)
qed

theorem modRib_programs_one_route_witness:
  "snd (modRib example_parsers dataplane_ready kernel_plain [path_v4])
     = kernel_plain\<lparr>requests := [RouteReplace_request
         (route_10_0_0_0\<lparr>Route_Gw := [192, 168, 0, 2]\<rparr>)]\<rparr>
   \<and> snd (modRib example_parsers dataplane_ready kernel_plain [path_withdraw, path_v4])
     = kernel_plain\<lparr>requests := [RouteDel_request
         (route_10_0_0_0\<lparr>Route_MultiPath := [nexthop_192_168_0_2, nexthop_192_168_0_2]\<rparr>)]\<rparr>
   \<and> multipath_nexthops kernel_v6_v4 [path_v4, path_nh_fe80_1]
     = ([nexthop_192_168_0_2,
         \<lparr>NexthopInfo_LinkIndex = 2, NexthopInfo_Gw = [10, 0, 0, 2],
          NexthopInfo_Flags = FLAG_ONLINK\<rparr>], kernel_v6_v4)"
proof -
  have r: "route_10_0_0_0
             = \<lparr>Route_LinkIndex = 0, Route_Dst = ParseIPNet example_parsers (Nlri path_v4),
                Route_Src = ParseIP example_parsers (routerId dataplane_ready), Route_Gw = [],
                Route_MultiPath = [], Route_Flags = 0\<rparr>"
    by (simp add: route_10_0_0_0_def example_parsers_fields dataplane_ready_routerId path_fields)
  have rw: "route_10_0_0_0
             = \<lparr>Route_LinkIndex = 0, Route_Dst = ParseIPNet example_parsers (Nlri path_withdraw),
                Route_Src = ParseIP example_parsers (routerId dataplane_ready), Route_Gw = [],
                Route_MultiPath = [], Route_Flags = 0\<rparr>"
    by (simp add: route_10_0_0_0_def example_parsers_fields dataplane_ready_routerId path_fields)
  have n: "NeighborIp (toPathApi path_v4) \<noteq> ''<nil>''"
    by (simp add: NeighborIp_path_v4)
  have m: "multipath_nexthops kernel_plain [path_withdraw, path_v4]
             = ([nexthop_192_168_0_2, nexthop_192_168_0_2], kernel_plain)"
    by (simp add: NeighborIp_path_v4 NeighborIp_examples getNexthop_plain_path_v4
        getNexthop_plain_withdraws nexthop_192_168_0_2_def)
  have kp: "requests kernel_plain = []"
    by (simp add: kernel_plain_def)
  have a: "snd (modRib example_parsers dataplane_ready kernel_plain [path_v4])
     = kernel_plain\<lparr>requests := [RouteReplace_request
         (route_10_0_0_0\<lparr>Route_Gw := [192, 168, 0, 2]\<rparr>)]\<rparr>"
    using modRib_programs_one_route [OF r, where link = 0 and gw = "[192, 168, 0, 2]"
        and flags = 0 and k = kernel_plain and ?k1.0 = kernel_plain and others = "[path_v4]"
        and mp = "[]" and ?k2.0 = kernel_plain]
      n getNexthop_plain_path_v4 kp
    by (simp add: path_fields route_10_0_0_0_def)
  have b: "snd (modRib example_parsers dataplane_ready kernel_plain [path_withdraw, path_v4])
     = kernel_plain\<lparr>requests := [RouteDel_request
         (route_10_0_0_0\<lparr>Route_MultiPath := [nexthop_192_168_0_2, nexthop_192_168_0_2]\<rparr>)]\<rparr>"
    using modRib_programs_one_route [OF rw, where link = 0 and gw = "[]"
        and flags = 0 and k = kernel_plain and ?k1.0 = kernel_plain and others = "[path_v4]"
        and mp = "[nexthop_192_168_0_2, nexthop_192_168_0_2]" and ?k2.0 = kernel_plain]
      m kp
    by (simp add: path_fields)
  obtain mp k2 where mk: "multipath_nexthops kernel_v6_v4 [path_v4, path_nh_fe80_1] = (mp, k2)"
    by (cases "multipath_nexthops kernel_v6_v4 [path_v4, path_nh_fe80_1]")
  have "[path_nh_fe80_1] \<noteq> [] \<and> multipath_nexthops kernel_v6_v4 [path_v4, path_nh_fe80_1] = (mp, k2)"
    using mk by simp
  with modRib_programs_one_route [OF r, where link = 0 and gw = "[]"
        and flags = 0 and k = kernel_v6_v4 and ?k1.0 = kernel_plain
        and others = "[path_nh_fe80_1]" and mp = mp and ?k2.0 = k2]
  obtain ks rs where len: "length rs = length [path_v4, path_nh_fe80_1]"
    and first: "ks ! 0 = kernel_v6_v4"
    and last: "ks ! length [path_v4, path_nh_fe80_1] = k2"
    and steps: "\<forall>i<length [path_v4, path_nh_fe80_1].
                  getNexthop (ks ! i) (Some (toPathApi ([path_v4, path_nh_fe80_1] ! i)))
                    = (rs ! i, ks ! Suc i)"
    and entries: "mp = map (\<lambda>(q, link, gw, flags).
                          \<lparr>NexthopInfo_LinkIndex = link, NexthopInfo_Gw = gw,
                           NexthopInfo_Flags = flags\<rparr>)
                     (filter (\<lambda>(q, r). NeighborIp (toPathApi q) \<noteq> ''<nil>'')
                        (zip [path_v4, path_nh_fe80_1] rs))"
    by blast
  from steps [rule_format, of 0]
  have "getNexthop (ks ! 0) (Some (toPathApi path_v4)) = (rs ! 0, ks ! Suc 0)"
    by simp
  then have s0: "rs ! 0 = (0, [192, 168, 0, 2], 0)" "ks ! Suc 0 = kernel_v6_v4"
    using first by (simp_all add: getNexthop_v6_v4_examples)
  from steps [rule_format, of "Suc 0"]
  have "getNexthop (ks ! Suc 0) (Some (toPathApi path_nh_fe80_1))
          = (rs ! Suc 0, ks ! Suc (Suc 0))"
    by simp
  then have s1: "rs ! Suc 0 = (2, [10, 0, 0, 2], FLAG_ONLINK)" "ks ! Suc (Suc 0) = kernel_v6_v4"
    using s0 by (simp_all add: getNexthop_v6_v4_examples)
  from len obtain r0 r1 where rs: "rs = [r0, r1]"
    by (cases rs; cases "tl rs"; auto)
  with s0 s1 have rs2: "rs = [(0, [192, 168, 0, 2], 0), (2, [10, 0, 0, 2], FLAG_ONLINK)]"
    by simp
  have "mp = [nexthop_192_168_0_2,
         \<lparr>NexthopInfo_LinkIndex = 2, NexthopInfo_Gw = [10, 0, 0, 2],
          NexthopInfo_Flags = FLAG_ONLINK\<rparr>]"
    unfolding entries rs2
    by (simp add: NeighborIp_path_v4 NeighborIp_path_nh_fe80_1 nexthop_192_168_0_2_def)
  moreover have "k2 = kernel_v6_v4"
    using last s1 by simp
  ultimately have c: "multipath_nexthops kernel_v6_v4 [path_v4, path_nh_fe80_1]
     = ([nexthop_192_168_0_2,
         \<lparr>NexthopInfo_LinkIndex = 2, NexthopInfo_Gw = [10, 0, 0, 2],
          NexthopInfo_Flags = FLAG_ONLINK\<rparr>], kernel_v6_v4)"
    using mk by simp
  from a b c show ?thesis by blast
qed

text \<open>
  Claim C4 as stated fails, in two ways. A sibling whose resolution yields no nexthop is
  not skipped: fe80::9 is no neighbour, \<^verbatim>\<open>getNexthop\<close> gives the nil gateway for it,
  and the multipath route has an entry with that nil gateway. And the paths of a batch
  are not programmed one by one: for a batch of a path to 10.0.0.0/24 and a withdrawal
  of 10.1.0.0/24 the only request is a replacement of the route to 10.0.0.0/24, with a
  nexthop entry for each of the two paths, and no route is deleted.
\<close>

theorem modRib_batch_counterexample:
  "fst (getNexthop kernel_plain (Some (toPathApi path_nh_fe80_9))) = (0, [], 0)
   \<and> requests (snd (modRib example_parsers dataplane_ready kernel_plain
                      [path_v4, path_nh_fe80_9]))
       = [RouteReplace_request
            (route_10_0_0_0\<lparr>Route_MultiPath := [nexthop_192_168_0_2, nexthop_none]\<rparr>)]
   \<and> Nlri path_other_withdraw = ''10.1.0.0/24'' \<and> IsWithdraw path_other_withdraw
   \<and> requests (snd (modRib example_parsers dataplane_ready kernel_plain
                      [path_v4, path_other_withdraw]))
       = [RouteReplace_request
            (route_10_0_0_0\<lparr>Route_MultiPath := [nexthop_192_168_0_2, nexthop_192_168_0_2]\<rparr>)]"
proof -
  have m1: "multipath_nexthops kernel_plain [path_v4, path_nh_fe80_9]
             = ([nexthop_192_168_0_2, nexthop_none], kernel_plain)"
    by (simp add: NeighborIp_path_v4 NeighborIp_examples getNexthop_plain_path_v4
        getNexthop_plain_fe80_9 nexthop_192_168_0_2_def nexthop_none_def)
  have m2: "multipath_nexthops kernel_plain [path_v4, path_other_withdraw]
             = ([nexthop_192_168_0_2, nexthop_192_168_0_2], kernel_plain)"
    by (simp add: NeighborIp_path_v4 NeighborIp_examples getNexthop_plain_path_v4
        getNexthop_plain_withdraws nexthop_192_168_0_2_def)
  have kp: "requests kernel_plain = []"
    by (simp add: kernel_plain_def)
  have a: "requests (snd (modRib example_parsers dataplane_ready kernel_plain
                      [path_v4, path_nh_fe80_9]))
       = [RouteReplace_request
            (route_10_0_0_0\<lparr>Route_MultiPath := [nexthop_192_168_0_2, nexthop_none]\<rparr>)]"
    using modRib_multi [of "[path_nh_fe80_9]" kernel_plain path_v4 _ kernel_plain
        example_parsers dataplane_ready] m1 kp
    by (simp add: del_or_replace_kernel path_fields example_parsers_fields
        dataplane_ready_routerId route_10_0_0_0_def)
  have b: "requests (snd (modRib example_parsers dataplane_ready kernel_plain
                      [path_v4, path_other_withdraw]))
       = [RouteReplace_request
            (route_10_0_0_0\<lparr>Route_MultiPath := [nexthop_192_168_0_2, nexthop_192_168_0_2]\<rparr>)]"
    using modRib_multi [of "[path_other_withdraw]" kernel_plain path_v4 _ kernel_plain
        example_parsers dataplane_ready] m2 kp
    by (simp add: del_or_replace_kernel path_fields example_parsers_fields
        dataplane_ready_routerId route_10_0_0_0_def)
  from a b show ?thesis
    by (simp add: getNexthop_plain_fe80_9 path_fields)
qed

text \<open>
  Claim C5, as the code has it. The NeighborIp of a path is \<^verbatim>\<open><nil>\<close> exactly when
  the path has a source whose address is nil (the local speaker's own paths). Such a path
  \<open>p\<close> gets no nexthop: its resolution gives none and leaves the kernel as it is, and in a
  batch of several paths such paths get no nexthop entry, the nexthop list being that of
  the other paths. A batch of \<open>p\<close> alone leaves the kernel as it is, and so does a batch
  of such paths only, of any length. When \<open>p\<close> is the first path of a batch whose other
  paths give the nexthop entries \<open>mp\<close>, and there is one at least, a route is programmed
  for the prefix of \<open>p\<close>: it is deleted if \<open>p\<close> is a withdrawal and replaced otherwise,
  with the nexthop entries \<open>mp\<close>. And no FDB entry is installed for a MAC/IP
  advertisement path \<open>e\<close> whose NeighborIp is \<^verbatim>\<open><nil>\<close>: the path is ignored, and the
  forwarding database is as it was.
\<close>

theorem modRib_self_originated:
  assumes "route = \<lparr>Route_LinkIndex = 0, Route_Dst = ParseIPNet L (Nlri p),
                    Route_Src = ParseIP L (routerId d), Route_Gw = [], Route_MultiPath = [],
                    Route_Flags = 0\<rparr>"
  shows "((NeighborIp (toPathApi p) = ''<nil>'')
            = (\<exists>s. Source p = Some s \<and> PeerInfo_Address s = []))
   \<and> (NeighborIp (toPathApi p) = ''<nil>''
        \<longrightarrow> getNexthop k (Some (toPathApi p)) = ((0, [], 0), k)
          \<and> modRib L d k [p] = (False, k)
          \<and> multipath_nexthops k (p # others) = multipath_nexthops k others
          \<and> (others \<noteq> [] \<and> multipath_nexthops k others = (mp, k2)
               \<longrightarrow> (mp = [] \<longrightarrow> modRib L d k (p # others) = (False, k))
                 \<and> (mp \<noteq> [] \<longrightarrow>
                       snd (modRib L d k (p # others))
                         = k2\<lparr>requests := requests k2
                             @ [if IsWithdraw p
                                then RouteDel_request (route\<lparr>Route_MultiPath := mp\<rparr>)
                                else RouteReplace_request (route\<lparr>Route_MultiPath := mp\<rparr>)]\<rparr>)))
   \<and> multipath_nexthops k paths
       = multipath_nexthops k (filter (\<lambda>q. NeighborIp (toPathApi q) \<noteq> ''<nil>'') paths)
   \<and> (list_all (\<lambda>q. NeighborIp (toPathApi q) = ''<nil>'') paths
        \<longrightarrow> modRib L d k paths = (False, k))
   \<and> (NeighborIp e = ''<nil>''
        \<longrightarrow> evpn_macip_to_fdb e nlri vni ctx = None \<and> vnw_ingress ctx fdb e nlri vni = fdb)"
proof -
  note a = NeighborIp_nil_iff [of p]
  have b: "getNexthop k (Some (toPathApi p)) = ((0, [], 0), k)
          \<and> modRib L d k [p] = (False, k)
          \<and> multipath_nexthops k (p # others) = multipath_nexthops k others"
    if "NeighborIp (toPathApi p) = ''<nil>''"
    using that getNexthop_nil_neighbor [of "toPathApi p" k]
    by (simp add: modRib_def Let_def)
  have c: "(mp = [] \<longrightarrow> modRib L d k (p # others) = (False, k))
                 \<and> (mp \<noteq> [] \<longrightarrow>
                       snd (modRib L d k (p # others))
                         = k2\<lparr>requests := requests k2
                             @ [if IsWithdraw p
                                then RouteDel_request (route\<lparr>Route_MultiPath := mp\<rparr>)
                                else RouteReplace_request (route\<lparr>Route_MultiPath := mp\<rparr>)]\<rparr>)"
    if n: "NeighborIp (toPathApi p) = ''<nil>''" and o: "others \<noteq> []"
      and m: "multipath_nexthops k others = (mp, k2)"
  proof -
    have m1: "multipath_nexthops k (p # others) = (mp, k2)"
      using multipath_nexthops_skip [OF n, of k others] m by simp
    have none: "modRib L d k (p # others) = (False, k)" if e: "mp = []"
    proof -
      from multipath_nexthops_empty [of k others k2] m e have "k2 = k" by simp
      with modRib_multi [OF o m1, of L d] e show ?thesis by simp
    qed
    have some: "snd (modRib L d k (p # others))
                         = k2\<lparr>requests := requests k2
                             @ [if IsWithdraw p
                                then RouteDel_request (route\<lparr>Route_MultiPath := mp\<rparr>)
                                else RouteReplace_request (route\<lparr>Route_MultiPath := mp\<rparr>)]\<rparr>"
      if ne: "mp \<noteq> []"
      using modRib_multi [OF o m1, of L d] ne
      by (simp add: del_or_replace_kernel assms)
    from none some show ?thesis by blast
  qed
  note f = multipath_nexthops_filter [of k paths]
  have g: "modRib L d k paths = (False, k)"
    if "list_all (\<lambda>q. NeighborIp (toPathApi q) = ''<nil>'') paths"
    using that by (rule modRib_all_self_originated)
  have h: "evpn_macip_to_fdb e nlri vni ctx = None \<and> vnw_ingress ctx fdb e nlri vni = fdb"
    if "NeighborIp e = ''<nil>''"
    using that by (simp add: evpn_macip_to_fdb_def vnw_ingress_def)
  from a b c f g h show ?thesis by blast
qed

lemma NeighborIp_self_examples:
  "NeighborIp (toPathApi path_self_10_1) = ''<nil>''"
  "NeighborIp (toPathApi path_evpn_self) = ''<nil>''"
  by (simp_all add: toPathApi_def toPathAPI_def path_self_10_1_def path_self_def
      path_evpn_self_def IP_String_def)

lemma NeighborIp_path_evpn: "NeighborIp (toPathApi path_evpn) = ''10.0.0.2''"
proof -
  have "Source path_evpn = Source path_v4"
    by (simp add: path_evpn_def path_v4_def)
  from toPathApi_same_source [OF this] show ?thesis
    by (simp add: NeighborIp_path_v4)
qed

lemma parsers_10_1_fields:
  "ParseIPNet parsers_10_1 ''10.1.0.0/24''
     = Some \<lparr>IPNet_IP = IPv4 10 1 0 0, IPNet_Mask = [255, 255, 255, 0]\<rparr>"
  "ParseIP parsers_10_1 ''10.0.0.1'' = IPv4 10 0 0 1"
  by (simp_all add: parsers_10_1_def)

lemma multipath_nexthops_plain_path_v4:
  "multipath_nexthops kernel_plain [path_v4] = ([nexthop_192_168_0_2], kernel_plain)"
  by (simp add: NeighborIp_path_v4 getNexthop_plain_path_v4 nexthop_192_168_0_2_def)

theorem modRib_self_originated_witness:
  "Source path_self = Some \<lparr>PeerInfo_AS = 65000, PeerInfo_ID = [10, 0, 0, 1], PeerInfo_Address = []\<rparr>
   \<and> NeighborIp (toPathApi path_self) = ''<nil>''
   \<and> modRib example_parsers dataplane_ready kernel_plain [path_self] = (False, kernel_plain)
   \<and> multipath_nexthops kernel_plain [path_self, path_v4]
       = ([nexthop_192_168_0_2], kernel_plain)
   \<and> modRib example_parsers dataplane_ready kernel_plain [path_self, path_self, path_self]
       = (False, kernel_plain)
   \<and> snd (modRib parsers_10_1 dataplane_ready kernel_plain [path_self_10_1, path_v4])
       = kernel_plain\<lparr>requests := [RouteReplace_request
           (route_10_1_0_0\<lparr>Route_MultiPath := [nexthop_192_168_0_2]\<rparr>)]\<rparr>
   \<and> vnw_ingress ctx_rd10 [] (toPathApi path_evpn_self) adv_mac_01 (Some 10) = []
   \<and> vnw_ingress ctx_rd10 [] (toPathApi path_evpn) adv_mac_01 (Some 10)
       = [\<lparr>Fdb_MAC = mac_01, Fdb_Link = ''vtep10'', Fdb_Dst = [192, 168, 0, 2], Fdb_VNI = 10\<rparr>]"
proof -
  have s: "Source path_self
             = Some \<lparr>PeerInfo_AS = 65000, PeerInfo_ID = [10, 0, 0, 1], PeerInfo_Address = []\<rparr>"
    by (simp add: path_self_def)
  have all: "list_all (\<lambda>q. NeighborIp (toPathApi q) = ''<nil>'') [path_self, path_self, path_self]"
    by (simp add: NeighborIp_path_self)
  have a: "NeighborIp (toPathApi path_self) = ''<nil>''
     \<and> modRib example_parsers dataplane_ready kernel_plain [path_self] = (False, kernel_plain)
     \<and> multipath_nexthops kernel_plain [path_self, path_v4]
         = ([nexthop_192_168_0_2], kernel_plain)
     \<and> modRib example_parsers dataplane_ready kernel_plain [path_self, path_self, path_self]
         = (False, kernel_plain)"
    using modRib_self_originated [OF refl, where p = path_self and L = example_parsers
        and d = dataplane_ready and k = kernel_plain and others = "[path_v4]"
        and mp = "[nexthop_192_168_0_2]" and ?k2.0 = kernel_plain
        and paths = "[path_self, path_self, path_self]" and e = "toPathApi path_evpn_self"
        and nlri = adv_mac_01 and vni = "Some 10" and ctx = ctx_rd10 and fdb = "[]"]
      s all multipath_nexthops_plain_path_v4
    by simp
  have r: "route_10_1_0_0
             = \<lparr>Route_LinkIndex = 0, Route_Dst = ParseIPNet parsers_10_1 (Nlri path_self_10_1),
                Route_Src = ParseIP parsers_10_1 (routerId dataplane_ready), Route_Gw = [],
                Route_MultiPath = [], Route_Flags = 0\<rparr>"
    by (simp add: route_10_1_0_0_def parsers_10_1_fields dataplane_ready_routerId
        path_self_10_1_def)
  have w: "IsWithdraw path_self_10_1 = False"
    by (simp add: path_self_10_1_def path_self_def path_v4_def)
  have kp: "requests kernel_plain = []"
    by (simp add: kernel_plain_def)
  have b: "snd (modRib parsers_10_1 dataplane_ready kernel_plain [path_self_10_1, path_v4])
       = kernel_plain\<lparr>requests := [RouteReplace_request
           (route_10_1_0_0\<lparr>Route_MultiPath := [nexthop_192_168_0_2]\<rparr>)]\<rparr>
     \<and> vnw_ingress ctx_rd10 [] (toPathApi path_evpn_self) adv_mac_01 (Some 10) = []"
    using modRib_self_originated [OF r, where k = kernel_plain and others = "[path_v4]"
        and mp = "[nexthop_192_168_0_2]" and ?k2.0 = kernel_plain
        and paths = "[path_self, path_self, path_self]" and e = "toPathApi path_evpn_self"
        and nlri = adv_mac_01 and vni = "Some 10" and ctx = ctx_rd10 and fdb = "[]"]
      NeighborIp_self_examples multipath_nexthops_plain_path_v4 w kp
    by simp
  have nh: "getNextHopFromPathAttributes (GetNativePathAttributes (toPathApi path_evpn))
              = [192, 168, 0, 2]"
    by (simp add: toPathApi_def toPathAPI_def path_evpn_def GetNativePathAttributes_def
        split: option.splits)
  have wd: "api_IsWithdraw (toPathApi path_evpn) = False"
    by (simp add: toPathApi_def toPathAPI_def path_evpn_def split: option.splits)
  have c: "vnw_ingress ctx_rd10 [] (toPathApi path_evpn) adv_mac_01 (Some 10)
       = [\<lparr>Fdb_MAC = mac_01, Fdb_Link = ''vtep10'', Fdb_Dst = [192, 168, 0, 2], Fdb_VNI = 10\<rparr>]"
    by (simp add: vnw_ingress_def evpn_macip_to_fdb_def NeighborIp_path_evpn nh wd
        ctx_rd10_def adv_mac_01_def)
  from s a b c show ?thesis by blast
qed

text \<open>
  Claim C5 as stated fails: the first path of the batch is a path to 10.1.0.0/24 that the
  local speaker originated, the second one a path to 10.0.0.0/24 with the nexthop
  192.168.0.2 that a peer sent. The kernel is asked to replace the route to 10.1.0.0/24,
  the prefix of the self-originated path, with that nexthop: a kernel route is installed
  for it.
\<close>

theorem modRib_self_originated_counterexample:
  "Source path_self_10_1
     = Some \<lparr>PeerInfo_AS = 65000, PeerInfo_ID = [10, 0, 0, 1], PeerInfo_Address = []\<rparr>
   \<and> NeighborIp (toPathApi path_self_10_1) = ''<nil>''
   \<and> Nlri path_self_10_1 = ''10.1.0.0/24'' \<and> Nlri path_v4 = ''10.0.0.0/24''
   \<and> requests kernel_plain = []
   \<and> requests (snd (modRib parsers_10_1 dataplane_ready kernel_plain
                      [path_self_10_1, path_v4]))
       = [RouteReplace_request
            \<lparr>Route_LinkIndex = 0,
             Route_Dst = Some \<lparr>IPNet_IP = IPv4 10 1 0 0, IPNet_Mask = [255, 255, 255, 0]\<rparr>,
             Route_Src = IPv4 10 0 0 1, Route_Gw = [],
             Route_MultiPath = [\<lparr>NexthopInfo_LinkIndex = 0, NexthopInfo_Gw = [192, 168, 0, 2],
                                  NexthopInfo_Flags = 0\<rparr>],
             Route_Flags = 0\<rparr>]"
proof -
  have m: "multipath_nexthops kernel_plain [path_self_10_1, path_v4]
             = ([nexthop_192_168_0_2], kernel_plain)"
    by (simp only: multipath_nexthops_skip [OF NeighborIp_self_examples(1)]
        multipath_nexthops_plain_path_v4)
  have kp: "requests kernel_plain = []"
    by (simp add: kernel_plain_def)
  have f: "Nlri path_self_10_1 = ''10.1.0.0/24''" "IsWithdraw path_self_10_1 = False"
    "Source path_self_10_1
       = Some \<lparr>PeerInfo_AS = 65000, PeerInfo_ID = [10, 0, 0, 1], PeerInfo_Address = []\<rparr>"
    by (simp_all add: path_self_10_1_def path_self_def path_v4_def)
  have "requests (snd (modRib parsers_10_1 dataplane_ready kernel_plain
                      [path_self_10_1, path_v4]))
       = [RouteReplace_request
            \<lparr>Route_LinkIndex = 0,
             Route_Dst = Some \<lparr>IPNet_IP = IPv4 10 1 0 0, IPNet_Mask = [255, 255, 255, 0]\<rparr>,
             Route_Src = IPv4 10 0 0 1, Route_Gw = [],
             Route_MultiPath = [\<lparr>NexthopInfo_LinkIndex = 0, NexthopInfo_Gw = [192, 168, 0, 2],
                                  NexthopInfo_Flags = 0\<rparr>],
             Route_Flags = 0\<rparr>]"
    using modRib_multi [of "[path_v4]" kernel_plain path_self_10_1 _ kernel_plain
        parsers_10_1 dataplane_ready] m kp
    by (simp add: del_or_replace_kernel f parsers_10_1_fields dataplane_ready_routerId
        nexthop_192_168_0_2_def)
  then show ?thesis
    by (simp add: f kp NeighborIp_self_examples path_fields)
qed

section \<open>The router ID on the loopback link\<close>

lemma addr_exists_iff:
  "addr_exists addr exist addrList = (exist \<or> list_ex (\<lambda>a. Addr_Equal a addr) addrList)"
  by (induction addrList arbitrary: exist) auto

lemma AddrList_all:
  "AddrList k lo FAMILY_ALL = Some addrList
     \<Longrightarrow> addrList = map snd (filter (\<lambda>la. fst la = lo) (addrs k))"
  by (simp add: AddrList_def split: if_splits)

lemma list_ex_on_link:
  "list_ex (\<lambda>a. Addr_Equal a addr) (map snd (filter (\<lambda>la. fst la = lo) as))
     = list_ex (\<lambda>la. fst la = lo \<and> Addr_Equal (snd la) addr) as"
  by (induction as) auto

lemma AddrAdd_addrs:
  "\<exists>new. addrs (snd (AddrAdd k lo addr)) = addrs k @ new \<and> length new \<le> 1"
proof (cases "Call_AddrAdd \<in> set (failing k)
            \<or> list_ex (\<lambda>la. fst la = lo \<and> Addr_Equal (snd la) addr) (addrs k)")
  case True
  then have "addrs (snd (AddrAdd k lo addr)) = addrs k @ [] \<and> length ([] :: (int \<times> Addr) list) \<le> 1"
    by (simp add: AddrAdd_def Let_def)
  then show ?thesis by blast
next
  case False
  then have "addrs (snd (AddrAdd k lo addr)) = addrs k @ [(lo, addr)]
             \<and> length [(lo, addr)] \<le> 1"
    by (simp add: AddrAdd_def Let_def)
  then show ?thesis by blast
qed

lemma Serve_loopback_addrs:
  "\<exists>new. addrs (snd (Serve_loopback L d k)) = addrs k @ new \<and> length new \<le> 1"
proof -
  have same: "\<exists>new. addrs k = addrs k @ new \<and> length new \<le> 1"
    by (rule exI [of _ "[]"]) simp
  show ?thesis
  proof (cases "LinkByName k ''lo''")
    case None
    then show ?thesis using same by (simp add: Serve_loopback_def)
  next
    case (Some lo)
    note lo = this
    show ?thesis
    proof (cases "AddrList k lo FAMILY_ALL")
      case None
      then show ?thesis using same lo by (simp add: Serve_loopback_def)
    next
      case (Some addrList)
      note al = this
      show ?thesis
      proof (cases "ParseAddr L (routerId d @ ''/32'')")
        case None
        then show ?thesis using same lo al by (simp add: Serve_loopback_def)
      next
        case (Some addr)
        show ?thesis
        proof (cases "addr_exists addr False addrList")
          case True
          then show ?thesis using same lo al Some by (simp add: Serve_loopback_def)
        next
          case False
          obtain failed k1 where a: "AddrAdd k lo addr = (failed, k1)"
            by (cases "AddrAdd k lo addr")
          have "snd (Serve_loopback L d k) = k1"
            using False lo al Some a by (simp add: Serve_loopback_def)
          then show ?thesis
            using AddrAdd_addrs [of k lo addr] a by simp
        qed
      qed
    qed
  qed
qed

text \<open>
  Claim C7: the part of \<^verbatim>\<open>Serve\<close> that follows the first loop removes no address and
  adds one at most. When the loopback link, its address list and the address
  router_id/32 are obtained: if an address of the list equals router_id/32, the kernel is
  left as it is; if none does, exactly one request is made, to add router_id/32 to the
  loopback link, and unless the kernel refuses it the address is there afterwards, after
  the addresses that were there before.
\<close>

theorem Serve_loopback_ensures_router_id:
  "(\<exists>new. addrs (snd (Serve_loopback L d k)) = addrs k @ new \<and> length new \<le> 1)
   \<and> (LinkByName k ''lo'' = Some lo \<and> AddrList k lo FAMILY_ALL = Some addrList
        \<and> ParseAddr L (routerId d @ ''/32'') = Some addr
      \<longrightarrow>
        (list_ex (\<lambda>a. Addr_Equal a addr) addrList \<longrightarrow> Serve_loopback L d k = (None, k))
      \<and> (\<not> list_ex (\<lambda>a. Addr_Equal a addr) addrList \<longrightarrow>
            requests (snd (Serve_loopback L d k)) = requests k @ [AddrAdd_request lo addr]
          \<and> (Call_AddrAdd \<notin> set (failing k) \<longrightarrow>
                Serve_loopback L d k
                  = (None, k\<lparr>requests := requests k @ [AddrAdd_request lo addr],
                              addrs := addrs k @ [(lo, addr)]\<rparr>))))"
proof -
  have present: "Serve_loopback L d k = (None, k)"
    if "LinkByName k ''lo'' = Some lo" "AddrList k lo FAMILY_ALL = Some addrList"
      "ParseAddr L (routerId d @ ''/32'') = Some addr"
      "list_ex (\<lambda>a. Addr_Equal a addr) addrList"
    using that by (simp add: Serve_loopback_def addr_exists_iff)
  have absent: "requests (snd (Serve_loopback L d k)) = requests k @ [AddrAdd_request lo addr]
          \<and> (Call_AddrAdd \<notin> set (failing k) \<longrightarrow>
                Serve_loopback L d k
                  = (None, k\<lparr>requests := requests k @ [AddrAdd_request lo addr],
                              addrs := addrs k @ [(lo, addr)]\<rparr>))"
    if lo: "LinkByName k ''lo'' = Some lo" and al: "AddrList k lo FAMILY_ALL = Some addrList"
      and pa: "ParseAddr L (routerId d @ ''/32'') = Some addr"
      and no: "\<not> list_ex (\<lambda>a. Addr_Equal a addr) addrList"
  proof -
    have nk: "\<not> list_ex (\<lambda>la. fst la = lo \<and> Addr_Equal (snd la) addr) (addrs k)"
      using no AddrList_all [OF al] list_ex_on_link [of addr lo "addrs k"] by simp
    have sl: "Serve_loopback L d k
                = (case AddrAdd k lo addr of
                     (failed, k1) \<Rightarrow> if failed then (Some (Failed_to_add_addr addr), k1)
                                     else (None, k1))"
      using lo al pa no by (simp add: Serve_loopback_def addr_exists_iff)
    have r: "requests (snd (Serve_loopback L d k)) = requests k @ [AddrAdd_request lo addr]"
      by (simp add: sl AddrAdd_def Let_def split: prod.splits)
    have ok: "Serve_loopback L d k
                  = (None, k\<lparr>requests := requests k @ [AddrAdd_request lo addr],
                              addrs := addrs k @ [(lo, addr)]\<rparr>)"
      if "Call_AddrAdd \<notin> set (failing k)"
      using that nk by (simp add: sl AddrAdd_def Let_def)
    from r ok show ?thesis by blast
  qed
  from Serve_loopback_addrs [of L d k] present absent show ?thesis by blast
qed

lemma Addr_Equal_examples:
  "Addr_Equal addr_localhost addr_router_id = False"
  "Addr_Equal addr_router_id_listed addr_router_id = True"
  by (simp_all add: Addr_Equal_def addr_localhost_def addr_router_id_def
      addr_router_id_listed_def IP_Equal_def IPv4_def v4InV6Prefix_def Let_def)

lemma kernel_plain_lo:
  "LinkByName kernel_plain ''lo'' = Some 1"
  "AddrList kernel_plain 1 FAMILY_ALL = Some [addr_localhost]"
  "LinkByName kernel_with_router_id ''lo'' = Some 1"
  "AddrList kernel_with_router_id 1 FAMILY_ALL = Some [addr_localhost, addr_router_id_listed]"
  by (simp_all add: LinkByName_def AddrList_def kernel_plain_def kernel_with_router_id_def
      FAMILY_ALL_def)

theorem Serve_loopback_ensures_router_id_witness:
  "Serve_loopback example_parsers dataplane_ready kernel_plain
     = (None, kernel_plain\<lparr>requests := [AddrAdd_request 1 addr_router_id],
                            addrs := [(1, addr_localhost), (1, addr_router_id)]\<rparr>)
   \<and> Serve_loopback example_parsers dataplane_ready kernel_with_router_id
     = (None, kernel_with_router_id)"
proof -
  have pa: "ParseAddr example_parsers (routerId dataplane_ready @ ''/32'') = Some addr_router_id"
    by (simp add: dataplane_ready_routerId example_parsers_fields)
  have kp: "requests kernel_plain = []" "addrs kernel_plain = [(1, addr_localhost)]"
    "Call_AddrAdd \<notin> set (failing kernel_plain)"
    by (simp_all add: kernel_plain_def)
  have a: "Serve_loopback example_parsers dataplane_ready kernel_plain
     = (None, kernel_plain\<lparr>requests := [AddrAdd_request 1 addr_router_id],
                            addrs := [(1, addr_localhost), (1, addr_router_id)]\<rparr>)"
    using Serve_loopback_ensures_router_id
        [of example_parsers dataplane_ready kernel_plain 1 "[addr_localhost]" addr_router_id]
      kernel_plain_lo pa kp
    by (simp add: Addr_Equal_examples)
  have b: "Serve_loopback example_parsers dataplane_ready kernel_with_router_id
     = (None, kernel_with_router_id)"
    using Serve_loopback_ensures_router_id
        [of example_parsers dataplane_ready kernel_with_router_id 1
            "[addr_localhost, addr_router_id_listed]" addr_router_id]
      kernel_plain_lo pa
    by (simp add: Addr_Equal_examples)
  from a b show ?thesis by blast
qed

section \<open>Startup and the event loop\<close>

lemma GetServer_config:
  "config d' = config d \<Longrightarrow> GetServer d' = GetServer d"
  by (simp add: GetServer_def)

lemma Serve_connect_exact:
  "Serve_connect d dials slept0 =
     (if RouterId (Global_Config (GetServer d)) \<noteq> [] \<and> As (Global_Config (GetServer d)) \<noteq> 0
         \<and> True \<in> set dials
      then (True,
            d\<lparr>client := True, routerId := RouterId (Global_Config (GetServer d)),
              localAS := As (Global_Config (GetServer d))\<rparr>,
            slept0 @ replicate (length (takeWhile Not dials)) 10)
      else (False,
            if True \<in> set dials
            then d\<lparr>client := True, routerId := RouterId (Global_Config (GetServer d)),
                   localAS := As (Global_Config (GetServer d))\<rparr>
            else d,
            slept0 @ replicate (length dials) 10))"
proof (induction dials arbitrary: d slept0)
  case Nil
  show ?case by simp
next
  case (Cons dialed dials)
  define g where "g = Global_Config (GetServer d)"
  define d2 where "d2 = d\<lparr>client := True, routerId := RouterId g, localAS := As g\<rparr>"
  define ready where "ready \<longleftrightarrow> RouterId g \<noteq> [] \<and> As g \<noteq> 0"
  have gs: "Global_Config (GetServer d2) = g"
    using GetServer_config [of d2 d] by (simp add: d2_def g_def)
  have idem: "d2\<lparr>client := True, routerId := RouterId g, localAS := As g\<rparr> = d2"
    by (simp add: d2_def)
  have g1: "Global_Config (GetServer (d\<lparr>client := True\<rparr>)) = g"
    using GetServer_config [of "d\<lparr>client := True\<rparr>" d] by (simp add: g_def)
  have step_t: "Serve_connect d (True # dials) slept0
                  = (if ready then (True, d2, slept0)
                     else Serve_connect d2 dials (slept0 @ [10]))"
    by (simp add: Let_def g1 ready_def d2_def)
  have step_f: "Serve_connect d (False # dials) slept0 = Serve_connect d dials (slept0 @ [10])"
    by simp
  have ih_d: "Serve_connect d dials (slept0 @ [10])
                = (if ready \<and> True \<in> set dials
                   then (True, d2, slept0 @ replicate (Suc (length (takeWhile Not dials))) 10)
                   else (False, if True \<in> set dials then d2 else d,
                         slept0 @ replicate (Suc (length dials)) 10))"
    using Cons.IH [of d "slept0 @ [10]"]
    by (simp add: ready_def d2_def g_def del: Serve_connect.simps)
  have ih_d2: "Serve_connect d2 dials (slept0 @ [10])
                = (if ready \<and> True \<in> set dials
                   then (True, d2, slept0 @ replicate (Suc (length (takeWhile Not dials))) 10)
                   else (False, d2, slept0 @ replicate (Suc (length dials)) 10))"
  proof -
    have "Serve_connect d2 dials (slept0 @ [10])
            = (if RouterId g \<noteq> [] \<and> As g \<noteq> 0 \<and> True \<in> set dials
               then (True, d2, (slept0 @ [10]) @ replicate (length (takeWhile Not dials)) 10)
               else (False, if True \<in> set dials then d2 else d2,
                     (slept0 @ [10]) @ replicate (length dials) 10))"
      using Cons.IH [of d2 "slept0 @ [10]"] unfolding gs idem .
    then show ?thesis
      by (simp add: ready_def del: Serve_connect.simps)
  qed
  have goal: "Serve_connect d (dialed # dials) slept0
        = (if ready \<and> True \<in> set (dialed # dials)
           then (True, d2, slept0 @ replicate (length (takeWhile Not (dialed # dials))) 10)
           else (False, if True \<in> set (dialed # dials) then d2 else d,
                 slept0 @ replicate (length (dialed # dials)) 10))"
  proof (cases dialed)
    case True
    show ?thesis
    proof (cases ready)
      case True
      with \<open>dialed\<close> step_t show ?thesis by (simp del: Serve_connect.simps)
    next
      case False
      with \<open>dialed\<close> step_t ih_d2 show ?thesis by (simp del: Serve_connect.simps)
    qed
  next
    case False
    with step_f ih_d show ?thesis by (simp del: Serve_connect.simps)
  qed
  then show ?case
    unfolding ready_def d2_def g_def by (simp only: conj_assoc)
qed

lemma Serve_step_frame:
  "routerId (dp (state_of (Serve_step L Stop st ev))) = routerId (dp st)
   \<and> localAS (dp (state_of (Serve_step L Stop st ev))) = localAS (dp st)
   \<and> slept (state_of (Serve_step L Stop st ev)) = slept st"
  by (cases ev) (simp_all add: Let_def split: option.splits)

lemma Serve_step_not_Connecting: "Serve_step L Stop st ev \<noteq> Connecting st1"
  by (cases ev) (simp_all add: Let_def split: option.splits)

lemma Serve_loop_frame:
  "routerId (dp (state_of (Serve_loop L Stop st evs))) = routerId (dp st)
   \<and> localAS (dp (state_of (Serve_loop L Stop st evs))) = localAS (dp st)
   \<and> slept (state_of (Serve_loop L Stop st evs)) = slept st"
proof (induction evs arbitrary: st)
  case Nil
  show ?case by simp
next
  case (Cons ev evs)
  note f = Serve_step_frame [of L Stop st ev]
  show ?case
  proof (cases "Serve_step L Stop st ev")
    case (Connecting st2)
    with f show ?thesis by simp
  next
    case (Serving st2)
    with f Cons.IH [of st2] show ?thesis by simp
  next
    case (Returned e st2)
    with f show ?thesis by simp
  next
    case (Panicked p st2)
    with f show ?thesis by simp
  qed
qed

lemma Serve_loop_not_Connecting: "Serve_loop L Stop st evs \<noteq> Connecting st1"
proof (induction evs arbitrary: st)
  case Nil
  show ?case by simp
next
  case (Cons ev evs)
  show ?case
  proof (cases "Serve_step L Stop st ev")
    case (Connecting st2)
    with Serve_step_not_Connecting [of L Stop st ev st2] show ?thesis by simp
  next
    case (Serving st2)
    with Cons.IH [of st2] show ?thesis by simp
  next
    case (Returned e st2)
    then show ?thesis by simp
  next
    case (Panicked p st2)
    then show ?thesis by simp
  qed
qed

lemma Serve_waiting:
  assumes "\<not> (RouterId (Global_Config (GetServer d)) \<noteq> []
              \<and> As (Global_Config (GetServer d)) \<noteq> 0 \<and> True \<in> set dials)"
  shows "Serve L Stop d k dials evs
           = Connecting
               \<lparr>dp = (if True \<in> set dials
                      then d\<lparr>client := True, routerId := RouterId (Global_Config (GetServer d)),
                             localAS := As (Global_Config (GetServer d))\<rparr>
                      else d),
                kern = k, advertised = [], AddPath_requests = [], started = [],
                Stop_calls = [], slept = replicate (length dials) 10\<rparr>"
proof -
  have "Serve_connect d dials []
          = (False,
             if True \<in> set dials
             then d\<lparr>client := True, routerId := RouterId (Global_Config (GetServer d)),
                    localAS := As (Global_Config (GetServer d))\<rparr>
             else d,
             replicate (length dials) 10)"
    using assms Serve_connect_exact [of d dials "[]"] by auto
  then show ?thesis
    by (simp add: Serve_def Let_def)
qed

lemma Serve_proceeding:
  assumes "RouterId (Global_Config (GetServer d)) \<noteq> []"
    and "As (Global_Config (GetServer d)) \<noteq> 0"
    and "True \<in> set dials"
    and "d2 = d\<lparr>client := True, routerId := RouterId (Global_Config (GetServer d)),
                 localAS := As (Global_Config (GetServer d))\<rparr>"
    and "st0 = \<lparr>dp = d2, kern = k, advertised = [], AddPath_requests = [], started = [],
                Stop_calls = [], slept = replicate (length (takeWhile Not dials)) 10\<rparr>"
  shows "Serve L Stop d k dials evs
           = (case Serve_loopback L d2 k of
                (Some e, k1) \<Rightarrow> Returned (Some e) (st0\<lparr>kern := k1\<rparr>)
              | (None, k1) \<Rightarrow>
                  Serve_loop L Stop
                    (st0\<lparr>kern := k1, advertised := [router_id_path d2],
                         slept := replicate (length (takeWhile Not dials)) 10 @ [10]\<rparr>) evs)"
proof -
  have "Serve_connect d dials [] = (True, d2, replicate (length (takeWhile Not dials)) 10)"
    using assms(1,2,3) Serve_connect_exact [of d dials "[]"] by (simp add: assms(4))
  then show ?thesis
    by (simp add: Serve_def Let_def assms(5) split: prod.splits option.splits)
qed

text \<open>
  Claim C9, as the code has it. Let \<open>g\<close> be what \<^verbatim>\<open>GetServer\<close> gives, which is the
  local configuration. The first loop of \<^verbatim>\<open>Serve\<close> is left exactly when \<open>g\<close> has a
  router ID that is not empty and an AS number that is not 0 and a dial succeeds; it is
  left at the first dial that succeeds, with the router ID and the AS number of \<open>g\<close>, and
  it has slept 10 seconds once for each dial that failed before, and not at all
  otherwise. When the loop is not left, every turn has failed, and the loop has slept 10
  seconds once for each turn; \<^verbatim>\<open>Serve\<close> is still in that loop and has done nothing
  else: the kernel is as it was, no path is advertised, no worker is started or stopped.
  When the loop is left, the state \<open>st\<close> of \<^verbatim>\<open>Serve\<close> after any events has that router
  ID and that AS number, and \<^verbatim>\<open>Serve\<close> has slept 10 seconds once more, unless it
  returned with an error of the loopback programming. So a state in which the kernel is
  not as it was, or in which a path is advertised or a worker started or stopped, has a
  router ID that is not empty and an AS number that is not 0.
\<close>

theorem Serve_proceeds_only_with_router_id:
  assumes "g = Global_Config (GetServer d)"
    and "d2 = d\<lparr>client := True, routerId := RouterId g, localAS := As g\<rparr>"
    and "st = state_of (Serve L Stop d k dials evs)"
    and "failed = length (takeWhile Not dials)"
  shows "Serve_connect d dials slept0
           = (if RouterId g \<noteq> [] \<and> As g \<noteq> 0 \<and> True \<in> set dials
              then (True, d2, slept0 @ replicate failed 10)
              else (False, if True \<in> set dials then d2 else d,
                    slept0 @ replicate (length dials) 10))
   \<and> (\<not> (RouterId g \<noteq> [] \<and> As g \<noteq> 0 \<and> True \<in> set dials)
        \<longrightarrow> Serve L Stop d k dials evs
              = Connecting \<lparr>dp = (if True \<in> set dials then d2 else d), kern = k,
                             advertised = [], AddPath_requests = [], started = [],
                             Stop_calls = [], slept = replicate (length dials) 10\<rparr>)
   \<and> (RouterId g \<noteq> [] \<and> As g \<noteq> 0 \<and> True \<in> set dials
        \<longrightarrow> (\<forall>st1. Serve L Stop d k dials evs \<noteq> Connecting st1)
          \<and> routerId (dp st) = RouterId g \<and> localAS (dp st) = As g
          \<and> slept st = replicate failed 10
                          @ (if fst (Serve_loopback L d2 k) = None then [10] else []))
   \<and> (kern st \<noteq> k \<or> advertised st \<noteq> [] \<or> AddPath_requests st \<noteq> [] \<or> started st \<noteq> []
        \<or> Stop_calls st \<noteq> []
        \<longrightarrow> routerId (dp st) \<noteq> [] \<and> localAS (dp st) \<noteq> 0)"
proof -
  define ready where "ready \<longleftrightarrow> RouterId g \<noteq> [] \<and> As g \<noteq> 0 \<and> True \<in> set dials"
  have a: "Serve_connect d dials slept0
           = (if RouterId g \<noteq> [] \<and> As g \<noteq> 0 \<and> True \<in> set dials
              then (True, d2, slept0 @ replicate failed 10)
              else (False, if True \<in> set dials then d2 else d,
                    slept0 @ replicate (length dials) 10))"
    using Serve_connect_exact [of d dials slept0] unfolding assms(1,2,4) .
  have b: "Serve L Stop d k dials evs
              = Connecting \<lparr>dp = (if True \<in> set dials then d2 else d), kern = k,
                             advertised = [], AddPath_requests = [], started = [],
                             Stop_calls = [], slept = replicate (length dials) 10\<rparr>"
    if "\<not> ready"
    using that Serve_waiting [of d dials L Stop k evs] unfolding ready_def assms(1,2)
    by blast
  have c: "(\<forall>st1. Serve L Stop d k dials evs \<noteq> Connecting st1)
          \<and> routerId (dp st) = RouterId g \<and> localAS (dp st) = As g
          \<and> slept st = replicate failed 10
                          @ (if fst (Serve_loopback L d2 k) = None then [10] else [])"
    if r: "ready"
  proof -
    define st0 where "st0 = \<lparr>dp = d2, kern = k, advertised = [], AddPath_requests = [],
      started = [], Stop_calls = [], slept = replicate (length (takeWhile Not dials)) 10\<rparr>"
    from r have r3: "RouterId (Global_Config (GetServer d)) \<noteq> []"
      "As (Global_Config (GetServer d)) \<noteq> 0" "True \<in> set dials"
      unfolding ready_def assms(1) by simp_all
    have d2: "d2 = d\<lparr>client := True, routerId := RouterId (Global_Config (GetServer d)),
                 localAS := As (Global_Config (GetServer d))\<rparr>"
      unfolding assms(1,2) ..
    note s = Serve_proceeding [OF r3 d2 st0_def, of L Stop evs]
    have f0: "routerId d2 = RouterId g" "localAS d2 = As g"
      by (simp_all add: assms(2))
    obtain e k1 where l: "Serve_loopback L d2 k = (e, k1)"
      by (cases "Serve_loopback L d2 k")
    show ?thesis
    proof (cases e)
      case None
      with s l have eq: "Serve L Stop d k dials evs
           = Serve_loop L Stop
               (st0\<lparr>kern := k1, advertised := [router_id_path d2],
                    slept := replicate (length (takeWhile Not dials)) 10 @ [10]\<rparr>) evs"
        by simp
      from Serve_loop_frame [of L Stop
          "st0\<lparr>kern := k1, advertised := [router_id_path d2],
               slept := replicate (length (takeWhile Not dials)) 10 @ [10]\<rparr>" evs] eq
      have "routerId (dp st) = RouterId g \<and> localAS (dp st) = As g
          \<and> slept st = replicate failed 10 @ [10]"
        by (simp add: assms(3,4) st0_def f0)
      moreover have "\<forall>st1. Serve L Stop d k dials evs \<noteq> Connecting st1"
        unfolding eq using Serve_loop_not_Connecting by blast
      ultimately show ?thesis using l None by simp
    next
      case (Some err)
      with s l have eq: "Serve L Stop d k dials evs = Returned (Some err) (st0\<lparr>kern := k1\<rparr>)"
        by simp
      then show ?thesis
        using l Some by (simp add: assms(3,4) st0_def f0)
    qed
  qed
  have e: "routerId (dp st) \<noteq> [] \<and> localAS (dp st) \<noteq> 0"
    if h: "kern st \<noteq> k \<or> advertised st \<noteq> [] \<or> AddPath_requests st \<noteq> [] \<or> started st \<noteq> []
        \<or> Stop_calls st \<noteq> []"
  proof (cases ready)
    case True
    from c [OF True] True show ?thesis
      unfolding ready_def by simp
  next
    case False
    from b [OF False] have "kern st = k \<and> advertised st = [] \<and> AddPath_requests st = []
       \<and> started st = [] \<and> Stop_calls st = []"
      by (simp add: assms(3))
    with h show ?thesis by blast
  qed
  from a b c e show ?thesis
    unfolding ready_def by blast
qed

lemma GetServer_dataplane_bgp:
  "GetServer (dataplane_bgp\<lparr>client := True\<rparr>)
     = \<lparr>Global_Config = \<lparr>As = 65000, RouterId = ''10.0.0.1''\<rparr>\<rparr>"
  "GetServer dataplane_bgp = \<lparr>Global_Config = \<lparr>As = 65000, RouterId = ''10.0.0.1''\<rparr>\<rparr>"
  by (simp_all add: GetServer_def dataplane_bgp_def NewDataplane_def config_bgp_def Let_def)

lemma AddrAdd_kernel_plain:
  "AddrAdd kernel_plain 1 addr_router_id
     = (False, kernel_plain\<lparr>requests := [AddrAdd_request 1 addr_router_id],
                             addrs := [(1, addr_localhost), (1, addr_router_id)]\<rparr>)"
  by (simp add: AddrAdd_def Let_def kernel_plain_def Addr_Equal_examples)

lemma Serve_loopback_plain:
  "Serve_loopback example_parsers dataplane_ready kernel_plain
     = (None, kernel_plain\<lparr>requests := [AddrAdd_request 1 addr_router_id],
                            addrs := [(1, addr_localhost), (1, addr_router_id)]\<rparr>)"
  by (simp add: Serve_loopback_def kernel_plain_lo dataplane_ready_routerId
      example_parsers_fields Addr_Equal_examples AddrAdd_kernel_plain)

lemma Serve_connect_example:
  "Serve_connect dataplane_bgp [False, False, False, True] []
     = (True, dataplane_ready, [10, 10, 10])"
  by (simp add: GetServer_dataplane_bgp Let_def dataplane_ready_def)

theorem Serve_proceeds_only_with_router_id_witness:
  "Serve_connect dataplane_bgp [False, False, False, True] []
     = (True, dataplane_ready, [10, 10, 10])
   \<and> Serve example_parsers Stop_reading dataplane_bgp kernel_plain [False, False]
        [From_modRibCh [path_v4]]
       = Connecting \<lparr>dp = dataplane_bgp, kern = kernel_plain, advertised = [],
                      AddPath_requests = [], started = [], Stop_calls = [], slept = [10, 10]\<rparr>
   \<and> routerId (dp (state_of (Serve example_parsers Stop_reading dataplane_bgp kernel_plain
                     [False, False, False, True]
                     [From_modRibCh [path_v4], From_addVnCh vn_rd10]))) = ''10.0.0.1''
   \<and> localAS (dp (state_of (Serve example_parsers Stop_reading dataplane_bgp kernel_plain
                     [False, False, False, True]
                     [From_modRibCh [path_v4], From_addVnCh vn_rd10]))) = 65000
   \<and> slept (state_of (Serve example_parsers Stop_reading dataplane_bgp kernel_plain
                     [False, False, False, True]
                     [From_modRibCh [path_v4], From_addVnCh vn_rd10])) = [10, 10, 10, 10]"
proof -
  have g: "Global_Config (GetServer dataplane_bgp) = \<lparr>As = 65000, RouterId = ''10.0.0.1''\<rparr>"
    by (simp add: GetServer_dataplane_bgp)
  have d2: "dataplane_ready
              = dataplane_bgp\<lparr>client := True,
                  routerId := RouterId \<lparr>As = 65000, RouterId = ''10.0.0.1''\<rparr>,
                  localAS := As \<lparr>As = 65000, RouterId = ''10.0.0.1''\<rparr>\<rparr>"
    by (simp add: dataplane_ready_def)
  have t: "True \<in> set [False, False, False, True]" "True \<notin> set [False, False]"
    "length (takeWhile Not [False, False, False, True]) = 3"
    "length (takeWhile Not [False, False]) = 2"
    by simp_all
  note w1 = Serve_proceeds_only_with_router_id [OF g [symmetric] d2 refl refl,
      where dials = "[False, False, False, True]" and ?slept0.0 = "[]" and L = example_parsers
        and Stop = Stop_reading and k = kernel_plain
        and evs = "[From_modRibCh [path_v4], From_addVnCh vn_rd10]"]
  note w2 = Serve_proceeds_only_with_router_id [OF g [symmetric] d2 refl refl,
      where dials = "[False, False]" and ?slept0.0 = "[]" and L = example_parsers
        and Stop = Stop_reading and k = kernel_plain and evs = "[From_modRibCh [path_v4]]"]
  have r: "replicate 3 (10 :: nat) = [10, 10, 10]" "replicate 2 (10 :: nat) = [10, 10]"
    by (simp_all add: numeral_3_eq_3 numeral_2_eq_2)
  from w1 have a: "Serve_connect dataplane_bgp [False, False, False, True] []
     = (True, dataplane_ready, [10, 10, 10])"
    by (simp only: t r) simp
  from w2 have b: "Serve example_parsers Stop_reading dataplane_bgp kernel_plain [False, False]
        [From_modRibCh [path_v4]]
       = Connecting \<lparr>dp = dataplane_bgp, kern = kernel_plain, advertised = [],
                      AddPath_requests = [], started = [], Stop_calls = [], slept = [10, 10]\<rparr>"
    by (simp only: t r) simp
  from w1 have c: "routerId (dp (state_of (Serve example_parsers Stop_reading dataplane_bgp
                     kernel_plain [False, False, False, True]
                     [From_modRibCh [path_v4], From_addVnCh vn_rd10]))) = ''10.0.0.1''
   \<and> localAS (dp (state_of (Serve example_parsers Stop_reading dataplane_bgp kernel_plain
                     [False, False, False, True]
                     [From_modRibCh [path_v4], From_addVnCh vn_rd10]))) = 65000
   \<and> slept (state_of (Serve example_parsers Stop_reading dataplane_bgp kernel_plain
                     [False, False, False, True]
                     [From_modRibCh [path_v4], From_addVnCh vn_rd10])) = [10, 10, 10, 10]"
    by (simp only: t r Serve_loopback_plain) simp
  from a b c show ?thesis by blast
qed

text \<open>
  Claim C9 as stated fails: the dial fails three times and then succeeds. The three
  sleeps are of 10 seconds each: the delay does not grow, which is not an exponential
  backoff.
\<close>

theorem Serve_backoff_counterexample:
  "snd (snd (Serve_connect dataplane_bgp [False, False, False, True] [])) = [10, 10, 10]"
  unfolding Serve_connect_example by simp



end
